theory Spec2Isabelle
  imports Main "HOL-Library.Finite_Map" "HOL-Library.Multiset"
begin

section \<open>The structured tag tree and the in-memory data\<close>

text \<open>
  The tags of \<^verbatim>\<open>amulet_nbt\<close> that the Anvil2 interface reads and writes. A compound is
  a dictionary from names to tags, so it is a finite map: two compounds are equal when
  they hold the same entries, in whatever order they were stored.
\<close>

datatype nbt =
    TAG_Byte int
  | TAG_Int int
  | TAG_Long int
  | TAG_String string
  | TAG_Byte_Array "int list"
  | TAG_Int_Array "int list"
  | TAG_Long_Array "int list"
  | TAG_List "nbt list"
  | TAG_Compound "(string, nbt) fmap"

text \<open>
  The exceptions the interface can raise. \<open>KeyError k\<close> is the lookup of the absent key
  \<open>k\<close> in a compound.
\<close>

datatype error =
    KeyError string
  | IndexError
  | ValueError
  | TypeError
  | AttributeError
  | NotImplementedError

fun is_KeyError :: "error \<Rightarrow> bool" where
  "is_KeyError (KeyError k) = True"
| "is_KeyError e = False"

text \<open>
  Modelled from the spec: \<^verbatim>\<open>amulet.api.block.Block\<close> is declared outside the sources at
  hand. The spec gives a block descriptor a namespace, a base name and a mapping from
  property names to string values, compared by content.
\<close>

record Block =
  namespace :: string
  base_name :: string
  properties :: "(string, string) fmap"

text \<open>\<^verbatim>\<open>Block(namespace="minecraft", base_name="air")\<close>\<close>

definition air :: Block where
  "air = \<lparr>namespace = ''minecraft'', base_name = ''air'', properties = fmempty\<rparr>"

text \<open>
  A value of the \<^verbatim>\<open>misc\<close> dictionary of a chunk: either a tag kept as it was read, or a
  dictionary from slab index to tag (the light arrays).
\<close>

datatype misc_value = MiscTag nbt | MiscDict "(int, nbt) fmap"

text \<open>
  Modelled from the spec: \<^verbatim>\<open>amulet.api.chunk.Chunk\<close> is declared outside the sources at
  hand; the fields are the keyword arguments \<^verbatim>\<open>decode\<close> passes to its constructor. The
  voxel volume \<open>blocks\<close> is a nested list indexed \<open>[x][y][z]\<close>.
\<close>

record Chunk =
  cx :: int
  cz :: int
  blocks :: "nat list list list"
  entities :: "nbt list"
  tileentities :: "nbt list option"
  biomes :: "int list"
  misc :: "(string, misc_value) fmap"
  extra :: nbt

text \<open>
  The functions the interface imports from modules outside the sources at hand
  (\<^verbatim>\<open>amulet.utils.world_utils\<close>, \<^verbatim>\<open>amulet.api\<close>) and from Python itself. Every
  definition below takes them as the parameter \<open>ext\<close>, and every theorem holds for all of
  them:
  \<^item> \<open>decode_long_array words size\<close> and \<open>encode_long_array values\<close>, the bit-packing codec;
  \<^item> \<open>block_key\<close>, the sort key that stands for the ordering of \<^verbatim>\<open>Block\<close> objects,
    which \<^verbatim>\<open>numpy.unique\<close> sorts by; nothing is assumed of it, so two descriptors that
    are not equal may have the same key;
  \<^item> \<open>str_value tag\<close>, Python's \<^verbatim>\<open>str(tag.value)\<close>;
  \<^item> \<open>convert_to_format biomes n\<close>, the method of the chunk's biome array.
\<close>

record 'k externals =
  decode_long_array :: "int list \<Rightarrow> nat \<Rightarrow> error + nat list"
  encode_long_array :: "nat list \<Rightarrow> error + int list"
  block_key :: "Block \<Rightarrow> 'k"
  str_value :: "nbt \<Rightarrow> string"
  convert_to_format :: "int list \<Rightarrow> nat \<Rightarrow> error + int list"

subsection \<open>Reading tags\<close>

text \<open>\<^verbatim>\<open>tag[key]\<close>: a KeyError when the compound has no such entry.\<close>

fun getitem :: "nbt \<Rightarrow> string \<Rightarrow> error + nbt" where
  "getitem (TAG_Compound m) k =
     (case fmlookup m k of None \<Rightarrow> Inl (KeyError k) | Some v \<Rightarrow> Inr v)"
| "getitem t k = Inl TypeError"

text \<open>\<^verbatim>\<open>key in tag\<close>\<close>

fun contains :: "nbt \<Rightarrow> string \<Rightarrow> error + bool" where
  "contains (TAG_Compound m) k = Inr (fmlookup m k \<noteq> None)"
| "contains t k = Inl TypeError"

text \<open>\<^verbatim>\<open>tag.value\<close> where the interface uses the value as an integer.\<close>

fun int_value :: "nbt \<Rightarrow> error + int" where
  "int_value (TAG_Byte n) = Inr n"
| "int_value (TAG_Int n) = Inr n"
| "int_value (TAG_Long n) = Inr n"
| "int_value t = Inl TypeError"

text \<open>\<^verbatim>\<open>tag.value\<close> where the interface uses the value as an array of integers.\<close>

fun long_array_value :: "nbt \<Rightarrow> error + int list" where
  "long_array_value (TAG_Long_Array xs) = Inr xs"
| "long_array_value t = Inl TypeError"

fun int_array_value :: "nbt \<Rightarrow> error + int list" where
  "int_array_value (TAG_Int_Array xs) = Inr xs"
| "int_array_value t = Inl TypeError"

text \<open>Iterating over a tag: the entries of a list tag.\<close>

fun list_value :: "nbt \<Rightarrow> error + nbt list" where
  "list_value (TAG_List xs) = Inr xs"
| "list_value t = Inl TypeError"

text \<open>A loop that builds a list and stops at the first exception.\<close>

fun map_result :: "('a \<Rightarrow> error + 'b) \<Rightarrow> 'a list \<Rightarrow> error + 'b list" where
  "map_result f [] = Inr []"
| "map_result f (x # xs) =
     (case f x of
        Inl e \<Rightarrow> Inl e
      | Inr y \<Rightarrow> (case map_result f xs of Inl e \<Rightarrow> Inl e | Inr ys \<Rightarrow> Inr (y # ys)))"

section \<open>The applicability check\<close>

text \<open>
  \<^verbatim>\<open>
  def is_valid(key):
      if key[0] != "anvil":
          return False
      if key[1] < 1444:
          return False
      return True
  \<close>
\<close>

definition is_valid :: "string \<times> int \<Rightarrow> bool" where
  "is_valid key =
     (if fst key \<noteq> ''anvil'' then False
      else if snd key < 1444 then False
      else True)"

section \<open>The array operations of numpy that the interface uses\<close>

text \<open>
  An array of numpy is a nested list in row-major order: \<open>a ! i ! j ! k\<close> is
  \<^verbatim>\<open>a[i][j][k]\<close>. The second and third extents of a three-dimensional array are read
  off its first plane.
\<close>

definition dim1 :: "'a list list \<Rightarrow> nat" where
  "dim1 a = (case a of [] \<Rightarrow> 0 | r # _ \<Rightarrow> length r)"

definition dim2 :: "'a list list list \<Rightarrow> nat" where
  "dim2 a = (case a of [] \<Rightarrow> 0 | p # _ \<Rightarrow> dim1 p)"

text \<open>\<open>a\<close> has shape \<open>(n0, n1, n2)\<close>.\<close>

definition has_shape :: "'a list list list \<Rightarrow> nat \<Rightarrow> nat \<Rightarrow> nat \<Rightarrow> bool" where
  "has_shape a n0 n1 n2 =
     (length a = n0 \<and> list_all (\<lambda>p. length p = n1 \<and> list_all (\<lambda>r. length r = n2) p) a)"

text \<open>\<^verbatim>\<open>numpy.zeros((n0, n1, n2), dtype=int)\<close>\<close>

definition zeros3 :: "nat \<Rightarrow> nat \<Rightarrow> nat \<Rightarrow> nat list list list" where
  "zeros3 n0 n1 n2 = replicate n0 (replicate n1 (replicate n2 0))"

text \<open>
  \<^verbatim>\<open>a.reshape((16, 16, 16))\<close> of a flat array: element \<open>[i][j][k]\<close> is the flat element
  \<open>256 i + 16 j + k\<close>. numpy raises ValueError unless the array has 4096 elements.
\<close>

definition reshape_16 :: "'a list \<Rightarrow> error + 'a list list list" where
  "reshape_16 xs =
     (if length xs = 4096
      then Inr (map (\<lambda>i. map (\<lambda>j. map (\<lambda>k. xs ! (256 * i + 16 * j + k)) [0..<16]) [0..<16])
                  [0..<16])
      else Inl ValueError)"

text \<open>
  The position a bound of a slice \<^verbatim>\<open>a[i:j]\<close> denotes in an array of length \<open>n\<close>: a
  negative bound counts from the end, and every bound is clipped to the array.
\<close>

definition slice_bound :: "int \<Rightarrow> nat \<Rightarrow> nat" where
  "slice_bound i n = (if i < 0 then nat (max 0 (i + int n)) else min (nat i) n)"

text \<open>
  \<^verbatim>\<open>a[lo:hi, :, :] = v\<close> where \<open>v\<close> has 16 planes: numpy raises ValueError (the shapes
  cannot be broadcast) unless the slice selects exactly 16 planes.
\<close>

definition assign_planes ::
  "'a list list list \<Rightarrow> int \<Rightarrow> int \<Rightarrow> 'a list list list \<Rightarrow> error + 'a list list list"
where
  "assign_planes a lo hi v =
     (let start = slice_bound lo (length a); stop = slice_bound hi (length a)
      in if stop - start = 16 then Inr (take start a @ v @ drop stop a)
         else Inl ValueError)"

text \<open>\<^verbatim>\<open>a.swapaxes(0, 1)\<close>: element \<open>[j][i][k]\<close> of the result is \<open>a[i][j][k]\<close>.\<close>

definition swapaxes_0_1 :: "'a list list list \<Rightarrow> 'a list list list" where
  "swapaxes_0_1 a = map (\<lambda>j. map (\<lambda>i. a ! i ! j) [0..<length a]) [0..<dim1 a]"

text \<open>\<^verbatim>\<open>numpy.swapaxes(a, 0, 2)\<close>: element \<open>[k][j][i]\<close> of the result is \<open>a[i][j][k]\<close>.\<close>

definition swapaxes_0_2 :: "'a list list list \<Rightarrow> 'a list list list" where
  "swapaxes_0_2 a =
     map (\<lambda>k. map (\<lambda>j. map (\<lambda>i. a ! i ! j ! k) [0..<length a]) [0..<dim1 a]) [0..<dim2 a]"

text \<open>The position of the first occurrence of \<open>x\<close> in \<open>ys\<close>.\<close>

fun index_of :: "'a list \<Rightarrow> 'a \<Rightarrow> nat" where
  "index_of [] x = 0"
| "index_of (y # ys) x = (if x = y then 0 else Suc (index_of ys x))"

text \<open>
  The number of the run of equal neighbours that each element of a list lies in, counted
  from 0: numpy's \<^verbatim>\<open>cumsum(mask) - 1\<close> for the mask that is true at the first element
  and wherever an element differs from its predecessor, \<^verbatim>\<open>aux[1:] != aux[:-1]\<close>.
  \<open>run_ids prev r xs\<close> numbers the elements of \<open>xs\<close> that follow \<open>prev\<close>, which lies in
  run \<open>r\<close>.
\<close>

fun run_ids :: "'a \<Rightarrow> nat \<Rightarrow> 'a list \<Rightarrow> nat list" where
  "run_ids prev r [] = []"
| "run_ids prev r (x # xs) =
     (if x \<noteq> prev then Suc r # run_ids x (Suc r) xs else r # run_ids x r xs)"

definition run_index :: "'a list \<Rightarrow> nat list" where
  "run_index aux = (case aux of [] \<Rightarrow> [] | x # rest \<Rightarrow> 0 # run_ids x 0 rest)"

text \<open>
  \<^verbatim>\<open>numpy.unique(xs, return_inverse=True)\<close>, as numpy computes it:
  \<^verbatim>\<open>
  perm = ar.argsort()
  aux = ar[perm]
  mask[:1] = True
  mask[1:] = aux[1:] != aux[:-1]
  ret = aux[mask]
  imask = numpy.cumsum(mask) - 1
  inv_idx[perm] = imask
  \<close>
  The array is sorted, and an element of the sorted array is kept when it differs from
  its predecessor: equal elements that the sort does not bring together are both kept.
  The order of the elements is the order of their keys; elements with the same key stay
  in the order they have in \<open>xs\<close>.
\<close>

definition numpy_unique :: "('a \<Rightarrow> 'k::linorder) \<Rightarrow> 'a list \<Rightarrow> 'a list \<times> nat list" where
  "numpy_unique key xs =
     (let sp = sort_key (\<lambda>p. key (snd p)) (zip [0..<length xs] xs);
          perm = map fst sp;
          aux = map snd sp;
          imask = run_index aux
      in (remdups_adj aux, map (\<lambda>i. imask ! index_of perm i) [0..<length xs]))"

text \<open>
  \<^verbatim>\<open>a[idx]\<close> for an array \<open>idx\<close> of unsigned indices: numpy raises IndexError when an index
  is out of bounds.
\<close>

definition fancy_index :: "'a list \<Rightarrow> nat list \<Rightarrow> error + 'a list" where
  "fancy_index a idx =
     (if list_all (\<lambda>i. i < length a) idx then Inr (map (\<lambda>i. a ! i) idx) else Inl IndexError)"

definition fancy_index3 :: "'a list \<Rightarrow> nat list list list \<Rightarrow> error + 'a list list list" where
  "fancy_index3 a idx =
     (if list_all (list_all (list_all (\<lambda>i. i < length a))) idx
      then Inr (map (map (map (\<lambda>i. a ! i))) idx)
      else Inl IndexError)"

section \<open>The palette codec\<close>

text \<open>\<^verbatim>\<open>s.split(":", 1)\<close> when it yields two parts: the text before and after the first colon.\<close>

definition split_colon :: "string \<Rightarrow> (string \<times> string) option" where
  "split_colon s =
     (if CHR '':'' \<in> set s
      then Some (takeWhile (\<lambda>c. c \<noteq> CHR '':'') s, tl (dropWhile (\<lambda>c. c \<noteq> CHR '':'') s))
      else None)"

text \<open>
  One turn of the loop of \<^verbatim>\<open>_decode_palette\<close>:
  \<^verbatim>\<open>
  namespace, base_name = entry["Name"].value.split(":", 1)
  properties = {prop: str(val.value) for prop, val in
                entry.get("Properties", nbt.TAG_Compound({})).items()}
  block = Block(namespace=namespace, base_name=base_name, properties=properties)
  \<close>
  Unpacking a split with no colon into two names raises ValueError.
\<close>

definition decode_palette_entry :: "'k externals \<Rightarrow> nbt \<Rightarrow> error + Block" where
  "decode_palette_entry ext entry =
     (case getitem entry ''Name'' of
        Inl e \<Rightarrow> Inl e
      | Inr (TAG_String s) \<Rightarrow>
          (case split_colon s of
             None \<Rightarrow> Inl ValueError
           | Some (ns, bn) \<Rightarrow>
               (case getitem entry ''Properties'' of
                  Inl e \<Rightarrow> Inr \<lparr>namespace = ns, base_name = bn, properties = fmempty\<rparr>
                | Inr (TAG_Compound props) \<Rightarrow>
                    Inr \<lparr>namespace = ns, base_name = bn,
                         properties = fmmap (str_value ext) props\<rparr>
                | Inr t \<Rightarrow> Inl AttributeError))
      | Inr t \<Rightarrow> Inl AttributeError)"

definition decode_palette :: "'k externals \<Rightarrow> nbt \<Rightarrow> error + Block list" where
  "decode_palette ext palette =
     (case list_value palette of
        Inl e \<Rightarrow> Inl e
      | Inr entries \<Rightarrow> map_result (decode_palette_entry ext) entries)"

text \<open>
  \<^verbatim>\<open>_encode_palette\<close>: the name is \<^verbatim>\<open>f'{block.namespace}:{block.base_name}'\<close>, and every
  property whose value is a string is written as a string tag. The property values of a
  descriptor are strings, so every property is written.
\<close>

definition encode_palette_entry :: "Block \<Rightarrow> nbt" where
  "encode_palette_entry block =
     TAG_Compound
       (fmupd ''Properties'' (TAG_Compound (fmmap TAG_String (properties block)))
          (fmupd ''Name'' (TAG_String (namespace block @ '':'' @ base_name block)) fmempty))"

definition encode_palette :: "Block list \<Rightarrow> nbt list" where
  "encode_palette blockstates = map encode_palette_entry blockstates"

section \<open>Decoding and encoding the blocks\<close>

text \<open>
  The loop of \<^verbatim>\<open>_decode_blocks\<close> over the sections, with the volume \<open>bs\<close> (storage
  order, 256 planes) and the running palette \<open>pal\<close>:
  \<^verbatim>\<open>
  for section in chunk_sections:
      if "Palette" not in section:  # 1.14 makes palette/blocks optional.
          continue
      height = section["Y"].value << 4
      blocks[height: height + 16, :, :] = decode_long_array(
          section["BlockStates"].value, 4096
      ).reshape((16, 16, 16)) + len(palette)
      palette += self._decode_palette(section["Palette"])
  \<close>
\<close>

fun decode_sections ::
  "'k externals \<Rightarrow> nbt list \<Rightarrow> nat list list list \<Rightarrow> Block list \<Rightarrow>
   error + (nat list list list \<times> Block list)"
where
  "decode_sections ext [] bs pal = Inr (bs, pal)"
| "decode_sections ext (section # rest) bs pal =
     (case contains section ''Palette'' of
        Inl e \<Rightarrow> Inl e
      | Inr False \<Rightarrow> decode_sections ext rest bs pal
      | Inr True \<Rightarrow>
     (case getitem section ''Y'' of Inl e \<Rightarrow> Inl e | Inr ytag \<Rightarrow>
     (case int_value ytag of Inl e \<Rightarrow> Inl e | Inr y \<Rightarrow>
     (case getitem section ''BlockStates'' of Inl e \<Rightarrow> Inl e | Inr states \<Rightarrow>
     (case long_array_value states of Inl e \<Rightarrow> Inl e | Inr longs \<Rightarrow>
     (case decode_long_array ext longs 4096 of Inl e \<Rightarrow> Inl e | Inr flat \<Rightarrow>
     (case reshape_16 flat of Inl e \<Rightarrow> Inl e | Inr cube \<Rightarrow>
     (case assign_planes bs (y * 16) (y * 16 + 16)
             (map (map (map (\<lambda>v. v + length pal))) cube) of
        Inl e \<Rightarrow> Inl e | Inr bs' \<Rightarrow>
     (case getitem section ''Palette'' of Inl e \<Rightarrow> Inl e | Inr ptag \<Rightarrow>
     (case decode_palette ext ptag of Inl e \<Rightarrow> Inl e | Inr local \<Rightarrow>
        decode_sections ext rest bs' (pal @ local)))))))))))"

text \<open>
  \<^verbatim>\<open>
  if not chunk_sections:
      raise NotImplementedError(...)
  blocks = numpy.zeros((256, 16, 16), dtype=int)
  palette = [Block(namespace="minecraft", base_name="air")]
  for section in chunk_sections: ...
  blocks = numpy.swapaxes(blocks.swapaxes(0, 1), 0, 2)
  palette, inverse = numpy.unique(palette, return_inverse=True)
  blocks = inverse[blocks]
  return blocks.astype(f"uint{get_smallest_dtype(blocks)}"), palette
  \<close>
  The final conversion to the smallest unsigned type that holds every index leaves the
  indices as they are.
\<close>

definition decode_blocks ::
  "('k::linorder) externals \<Rightarrow> nbt list \<Rightarrow> error + (nat list list list \<times> Block list)"
where
  "decode_blocks ext chunk_sections =
     (if chunk_sections = [] then Inl NotImplementedError
      else
        (case decode_sections ext chunk_sections (zeros3 256 16 16) [air] of
           Inl e \<Rightarrow> Inl e
         | Inr (bs, pal) \<Rightarrow>
             (let bs' = swapaxes_0_2 (swapaxes_0_1 bs);
                  (pal', inverse) = numpy_unique (block_key ext) pal
              in case fancy_index3 inverse bs' of
                   Inl e \<Rightarrow> Inl e
                 | Inr bs'' \<Rightarrow> Inr (bs'', pal'))))"

text \<open>
  \<^verbatim>\<open>blocks[:, y * 16: y * 16 + 16, :].ravel()\<close>: the indices of slab \<open>y\<close> of a volume in
  public order, flattened in row-major order.
\<close>

definition slab_indices :: "nat list list list \<Rightarrow> nat \<Rightarrow> nat list" where
  "slab_indices bs y = concat (concat (map (\<lambda>plane. take 16 (drop (y * 16) plane)) bs))"

text \<open>
  One turn of the loop of \<^verbatim>\<open>_encode_blocks\<close>; None is the \<^verbatim>\<open>continue\<close> that omits the
  slab:
  \<^verbatim>\<open>
  block_sub_array = blocks[:, y * 16: y * 16 + 16, :].ravel()
  sub_palette_, block_sub_array = numpy.unique(block_sub_array, return_inverse=True)
  sub_palette = self._encode_palette(palette[sub_palette_])
  if len(sub_palette) == 1 and sub_palette[0]['Name'].value == 'minecraft:air':
      continue
  section = nbt.TAG_Compound()
  section['Y'] = nbt.TAG_Byte(y)
  section['BlockStates'] = nbt.TAG_Long_Array(encode_long_array(block_sub_array))
  section['Palette'] = sub_palette
  sections.append(section)
  \<close>
\<close>

definition encode_section ::
  "'k externals \<Rightarrow> nat list list list \<Rightarrow> Block list \<Rightarrow> nat \<Rightarrow> error + nbt option"
where
  "encode_section ext bs pal y =
     (let (sub_palette_ix, block_sub_array) = numpy_unique (\<lambda>i. i) (slab_indices bs y)
      in case fancy_index pal sub_palette_ix of
           Inl e \<Rightarrow> Inl e
         | Inr used \<Rightarrow>
             (let sub_palette = encode_palette used
              in if length sub_palette = 1 \<and>
                    getitem (sub_palette ! 0) ''Name'' = Inr (TAG_String ''minecraft:air'')
                 then Inr None
                 else
                   (case encode_long_array ext block_sub_array of
                      Inl e \<Rightarrow> Inl e
                    | Inr longs \<Rightarrow>
                        Inr (Some (TAG_Compound
                          (fmupd ''Palette'' (TAG_List sub_palette)
                            (fmupd ''BlockStates'' (TAG_Long_Array longs)
                              (fmupd ''Y'' (TAG_Byte (int y)) fmempty))))))))"

text \<open>\<^verbatim>\<open>_encode_blocks\<close>: the sections of the slabs 0 to 15 that are not omitted, in order.\<close>

definition encode_blocks ::
  "'k externals \<Rightarrow> nat list list list \<Rightarrow> Block list \<Rightarrow> error + nbt list"
where
  "encode_blocks ext bs pal =
     (case map_result (encode_section ext bs pal) [0..<16] of
        Inl e \<Rightarrow> Inl e
      | Inr secs \<Rightarrow> Inr (concat (map (\<lambda>s. case s of None \<Rightarrow> [] | Some sec \<Rightarrow> [sec]) secs)))"

section \<open>Decoding and encoding a chunk\<close>

text \<open>
  \<^verbatim>\<open>{section['Y'].value: section[name] for section in data["Level"]["Sections"]}\<close>,
  built from left to right into \<open>acc\<close>.
\<close>

fun light_dict :: "string \<Rightarrow> nbt list \<Rightarrow> (int, nbt) fmap \<Rightarrow> error + (int, nbt) fmap" where
  "light_dict name [] acc = Inr acc"
| "light_dict name (section # rest) acc =
     (case getitem section ''Y'' of Inl e \<Rightarrow> Inl e | Inr ytag \<Rightarrow>
     (case int_value ytag of Inl e \<Rightarrow> Inl e | Inr y \<Rightarrow>
     (case getitem section name of Inl e \<Rightarrow> Inl e | Inr light \<Rightarrow>
        light_dict name rest (fmupd y light acc))))"

text \<open>
  \<^verbatim>\<open>decode\<close>, statement by statement: every \<^verbatim>\<open>data['Level'][name]\<close> is a lookup that
  raises KeyError when the field is absent.
  \<^verbatim>\<open>
  misc = {}
  cx = data["Level"]["xPos"].value
  cz = data["Level"]["zPos"].value
  blocks, palette = self._decode_blocks(data["Level"]["Sections"])
  misc['BlockLight2048BA'] = {section['Y'].value: section['BlockLight'] for section in ...}
  misc['SkyLight2048BA'] = {section['Y'].value: section['SkyLight'] for section in ...}
  misc['TileTicksA'] = data['Level']['TileTicks']
  misc['LastUpdateL'] = data['Level']['LastUpdate']
  biomes = data['Level']['Biomes'].value
  misc['InhabitedTimeL'] = data['Level']['InhabitedTime']
  misc['StatusSt'] = data['Level']['Status']
  misc['HeightmapsC'] = data['Level']['Heightmaps']
  misc['ToBeTickedA'] = data['Level']['ToBeTicked']
  misc['PostProcessingA'] = data['Level']['PostProcessing']
  misc['StructuresC'] = data['Level']['Structures']
  misc['LiquidTicksA'] = data['Level']['LiquidTicks']
  misc['LiquidsToBeTicked'] = data['Level']['LiquidsToBeTicked']
  entities = self._decode_entities(data["Level"]["Entities"])
  tile_entities = None
  return Chunk(cx, cz, blocks=blocks, entities=entities, tileentities=tile_entities,
               biomes=biomes, misc=misc, extra=data), palette
  \<close>
  \<^verbatim>\<open>_decode_entities\<close> returns the empty list whatever it is given.
\<close>

definition decode :: "('k::linorder) externals \<Rightarrow> nbt \<Rightarrow> error + (Chunk \<times> Block list)" where
  "decode ext data =
     (case getitem data ''Level'' of Inl e \<Rightarrow> Inl e | Inr level \<Rightarrow>
     (case getitem level ''xPos'' of Inl e \<Rightarrow> Inl e | Inr xtag \<Rightarrow>
     (case int_value xtag of Inl e \<Rightarrow> Inl e | Inr x \<Rightarrow>
     (case getitem level ''zPos'' of Inl e \<Rightarrow> Inl e | Inr ztag \<Rightarrow>
     (case int_value ztag of Inl e \<Rightarrow> Inl e | Inr z \<Rightarrow>
     (case getitem level ''Sections'' of Inl e \<Rightarrow> Inl e | Inr stag \<Rightarrow>
     (case list_value stag of Inl e \<Rightarrow> Inl e | Inr sections \<Rightarrow>
     (case decode_blocks ext sections of Inl e \<Rightarrow> Inl e | Inr (bs, pal) \<Rightarrow>
     (case light_dict ''BlockLight'' sections fmempty of Inl e \<Rightarrow> Inl e | Inr block_light \<Rightarrow>
     (case light_dict ''SkyLight'' sections fmempty of Inl e \<Rightarrow> Inl e | Inr sky_light \<Rightarrow>
     (case getitem level ''TileTicks'' of Inl e \<Rightarrow> Inl e | Inr tile_ticks \<Rightarrow>
     (case getitem level ''LastUpdate'' of Inl e \<Rightarrow> Inl e | Inr last_update \<Rightarrow>
     (case getitem level ''Biomes'' of Inl e \<Rightarrow> Inl e | Inr btag \<Rightarrow>
     (case int_array_value btag of Inl e \<Rightarrow> Inl e | Inr bio \<Rightarrow>
     (case getitem level ''InhabitedTime'' of Inl e \<Rightarrow> Inl e | Inr inhabited \<Rightarrow>
     (case getitem level ''Status'' of Inl e \<Rightarrow> Inl e | Inr status \<Rightarrow>
     (case getitem level ''Heightmaps'' of Inl e \<Rightarrow> Inl e | Inr heightmaps \<Rightarrow>
     (case getitem level ''ToBeTicked'' of Inl e \<Rightarrow> Inl e | Inr to_be_ticked \<Rightarrow>
     (case getitem level ''PostProcessing'' of Inl e \<Rightarrow> Inl e | Inr post \<Rightarrow>
     (case getitem level ''Structures'' of Inl e \<Rightarrow> Inl e | Inr structures \<Rightarrow>
     (case getitem level ''LiquidTicks'' of Inl e \<Rightarrow> Inl e | Inr liquid_ticks \<Rightarrow>
     (case getitem level ''LiquidsToBeTicked'' of Inl e \<Rightarrow> Inl e | Inr liquids \<Rightarrow>
     (case getitem level ''Entities'' of Inl e \<Rightarrow> Inl e | Inr ents \<Rightarrow>
        Inr (\<lparr>cx = x, cz = z, blocks = bs, entities = [], tileentities = None,
              biomes = bio,
              misc =
                fmupd ''LiquidsToBeTicked'' (MiscTag liquids)
                (fmupd ''LiquidTicksA'' (MiscTag liquid_ticks)
                (fmupd ''StructuresC'' (MiscTag structures)
                (fmupd ''PostProcessingA'' (MiscTag post)
                (fmupd ''ToBeTickedA'' (MiscTag to_be_ticked)
                (fmupd ''HeightmapsC'' (MiscTag heightmaps)
                (fmupd ''StatusSt'' (MiscTag status)
                (fmupd ''InhabitedTimeL'' (MiscTag inhabited)
                (fmupd ''LastUpdateL'' (MiscTag last_update)
                (fmupd ''TileTicksA'' (MiscTag tile_ticks)
                (fmupd ''SkyLight2048BA'' (MiscDict sky_light)
                (fmupd ''BlockLight2048BA'' (MiscDict block_light) fmempty))))))))))),
              extra = data\<rparr>, pal))))))))))))))))))))))))"

text \<open>\<^verbatim>\<open>nbt.TAG_Byte_Array(numpy.zeros(2048, dtype=numpy.uint8))\<close>\<close>

definition zero_light :: nbt where
  "zero_light = TAG_Byte_Array (replicate 2048 0)"

text \<open>
  The light array a section of slab \<open>y\<close> receives from the entry \<open>key\<close> of \<open>misc\<close>:
  \<^verbatim>\<open>
  block_light = chunk.misc.get('BlockLight2048', {})
  if y in block_light:
      section['BlockLight'] = block_light[y]
  else:
      section['BlockLight'] = nbt.TAG_Byte_Array(numpy.zeros(2048, dtype=numpy.uint8))
  \<close>
\<close>

definition light_for :: "(string, misc_value) fmap \<Rightarrow> string \<Rightarrow> int \<Rightarrow> error + nbt" where
  "light_for m key y =
     (case fmlookup m key of
        None \<Rightarrow> Inr zero_light
      | Some (MiscDict d) \<Rightarrow> (case fmlookup d y of Some light \<Rightarrow> Inr light | None \<Rightarrow> Inr zero_light)
      | Some (MiscTag t) \<Rightarrow> Inl TypeError)"

text \<open>\<^verbatim>\<open>tag[key] = value\<close>\<close>

fun setitem :: "nbt \<Rightarrow> string \<Rightarrow> nbt \<Rightarrow> error + nbt" where
  "setitem (TAG_Compound m) k v = Inr (TAG_Compound (fmupd k v m))"
| "setitem t k v = Inl TypeError"

text \<open>The body of the loop of \<^verbatim>\<open>encode\<close> over the emitted sections.\<close>

definition add_light :: "(string, misc_value) fmap \<Rightarrow> nbt \<Rightarrow> error + nbt" where
  "add_light m section =
     (case getitem section ''Y'' of Inl e \<Rightarrow> Inl e | Inr ytag \<Rightarrow>
     (case int_value ytag of Inl e \<Rightarrow> Inl e | Inr y \<Rightarrow>
     (case light_for m ''BlockLight2048'' y of Inl e \<Rightarrow> Inl e | Inr block_light \<Rightarrow>
     (case setitem section ''BlockLight'' block_light of Inl e \<Rightarrow> Inl e | Inr section' \<Rightarrow>
     (case light_for m ''SkyLight2048'' y of Inl e \<Rightarrow> Inl e | Inr sky_light \<Rightarrow>
        setitem section' ''SkyLight'' sky_light)))))"

text \<open>\<^verbatim>\<open>misc.get(key, default)\<close> stored as a tag.\<close>

definition misc_get :: "(string, misc_value) fmap \<Rightarrow> string \<Rightarrow> nbt \<Rightarrow> error + nbt" where
  "misc_get m key dflt =
     (case fmlookup m key of
        None \<Rightarrow> Inr dflt
      | Some (MiscTag t) \<Rightarrow> Inr t
      | Some (MiscDict d) \<Rightarrow> Inl TypeError)"

definition heightmap_names :: "string list" where
  "heightmap_names =
     [''MOTION_BLOCKING'', ''MOTION_BLOCKING_NO_LEAVES'', ''OCEAN_FLOOR'', ''OCEAN_FLOOR_WG'',
      ''WORLD_SURFACE'', ''WORLD_SURFACE_WG'']"

text \<open>\<^verbatim>\<open>nbt.TAG_Long_Array(numpy.zeros(36, dtype='>i8'))\<close>\<close>

definition zero_heightmap :: nbt where
  "zero_heightmap = TAG_Long_Array (replicate 36 0)"

text \<open>
  \<^verbatim>\<open>
  data['Level']['Heightmaps'] = nbt.TAG_Compound()
  heightmaps = misc.get('HeightmapsC', nbt.TAG_Compound())
  for heightmap in ('MOTION_BLOCKING', ..., 'WORLD_SURFACE_WG'):
      data['Level']['Heightmaps'][heightmap] = heightmaps.get(
          heightmap, nbt.TAG_Long_Array(numpy.zeros(36, dtype='>i8')))
  \<close>
  A dictionary of light arrays under \<^verbatim>\<open>HeightmapsC\<close> has integer keys, so its
  \<^verbatim>\<open>get\<close> yields the default for every name; a tag that is not a compound has no
  \<^verbatim>\<open>get\<close>.
\<close>

definition encode_heightmaps :: "(string, misc_value) fmap \<Rightarrow> error + nbt" where
  "encode_heightmaps m =
     (case fmlookup m ''HeightmapsC'' of
        Some (MiscTag (TAG_Compound h)) \<Rightarrow>
          Inr (TAG_Compound
            (fold (\<lambda>name acc.
                     fmupd name (case fmlookup h name of None \<Rightarrow> zero_heightmap | Some t \<Rightarrow> t) acc)
               heightmap_names fmempty))
      | Some (MiscTag t) \<Rightarrow> Inl AttributeError
      | _ \<Rightarrow>
          Inr (TAG_Compound (fold (\<lambda>name acc. fmupd name zero_heightmap acc)
                 heightmap_names fmempty)))"

text \<open>\<^verbatim>\<open>nbt.TAG_List([nbt.TAG_List() for _ in range(16)])\<close>\<close>

definition sixteen_lists :: nbt where
  "sixteen_lists = TAG_List (replicate 16 (TAG_List []))"

text \<open>
  \<^verbatim>\<open>encode\<close>, statement by statement:
  \<^verbatim>\<open>
  data['Level']['xPos'] = nbt.TAG_Int(chunk.cx)
  data['Level']['zPos'] = nbt.TAG_Int(chunk.cz)
  data['DataVersion'] = nbt.TAG_Int(max_world_version[1])
  data["Level"]["Sections"] = self._encode_blocks(chunk.blocks, palette)
  for section in data["Level"]["Sections"]: ...
  data['Level']['TileTicks'] = misc.get('TileTicksA', nbt.TAG_List())
  data['Level']['LastUpdate'] = misc.get('LastUpdateL', nbt.TAG_Long(0))
  data['Level']['Biomes'] = nbt.TAG_Int_Array(
      chunk.biomes.convert_to_format(256).astype(dtype=numpy.uint32))
  data['Level']['InhabitedTime'] = misc.get('InhabitedTimeL', nbt.TAG_Long(0))
  data['Level']['Status'] = misc.get('StatusSt', nbt.TAG_String('postprocessed'))
  data['Level']['Heightmaps'] = ...
  data['Level']['ToBeTicked'] = misc.get('ToBeTickedA', sixteen empty lists)
  data['Level']['PostProcessing'] = misc.get('PostProcessingA', sixteen empty lists)
  data['Level']['Structures'] = misc.get('StructuresC', nbt.TAG_Compound())
  data['Level']['LiquidTicks'] = misc.get('LiquidTicksA', nbt.TAG_List())
  data['Level']['LiquidsToBeTicked'] = misc.get('LiquidsToBeTicked', sixteen empty lists)
  data["Level"]["Entities"] = self._encode_entities(chunk.entities)
  \<close>
  \<^verbatim>\<open>_encode_entities\<close> returns the empty list whatever it is given.
\<close>

definition encode ::
  "'k externals \<Rightarrow> Chunk \<Rightarrow> Block list \<Rightarrow> string \<times> int \<Rightarrow> error + nbt"
where
  "encode ext chunk pal max_world_version =
     (let m = misc chunk in
     (case encode_blocks ext (blocks chunk) pal of Inl e \<Rightarrow> Inl e | Inr secs \<Rightarrow>
     (case map_result (add_light m) secs of Inl e \<Rightarrow> Inl e | Inr sections \<Rightarrow>
     (case misc_get m ''TileTicksA'' (TAG_List []) of Inl e \<Rightarrow> Inl e | Inr tile_ticks \<Rightarrow>
     (case misc_get m ''LastUpdateL'' (TAG_Long 0) of Inl e \<Rightarrow> Inl e | Inr last_update \<Rightarrow>
     (case convert_to_format ext (biomes chunk) 256 of Inl e \<Rightarrow> Inl e | Inr bio \<Rightarrow>
     (case misc_get m ''InhabitedTimeL'' (TAG_Long 0) of Inl e \<Rightarrow> Inl e | Inr inhabited \<Rightarrow>
     (case misc_get m ''StatusSt'' (TAG_String ''postprocessed'') of
        Inl e \<Rightarrow> Inl e | Inr status \<Rightarrow>
     (case encode_heightmaps m of Inl e \<Rightarrow> Inl e | Inr heightmaps \<Rightarrow>
     (case misc_get m ''ToBeTickedA'' sixteen_lists of Inl e \<Rightarrow> Inl e | Inr to_be_ticked \<Rightarrow>
     (case misc_get m ''PostProcessingA'' sixteen_lists of Inl e \<Rightarrow> Inl e | Inr post \<Rightarrow>
     (case misc_get m ''StructuresC'' (TAG_Compound fmempty) of
        Inl e \<Rightarrow> Inl e | Inr structures \<Rightarrow>
     (case misc_get m ''LiquidTicksA'' (TAG_List []) of Inl e \<Rightarrow> Inl e | Inr liquid_ticks \<Rightarrow>
     (case misc_get m ''LiquidsToBeTicked'' sixteen_lists of Inl e \<Rightarrow> Inl e | Inr liquids \<Rightarrow>
        Inr (TAG_Compound
          (fmupd ''DataVersion'' (TAG_Int (snd max_world_version))
          (fmupd ''Level'' (TAG_Compound
              (fmupd ''Entities'' (TAG_List [])
              (fmupd ''LiquidsToBeTicked'' liquids
              (fmupd ''LiquidTicks'' liquid_ticks
              (fmupd ''Structures'' structures
              (fmupd ''PostProcessing'' post
              (fmupd ''ToBeTicked'' to_be_ticked
              (fmupd ''Heightmaps'' heightmaps
              (fmupd ''Status'' status
              (fmupd ''InhabitedTime'' inhabited
              (fmupd ''Biomes'' (TAG_Int_Array (map (\<lambda>v. v mod 2 ^ 32) bio))
              (fmupd ''LastUpdate'' last_update
              (fmupd ''TileTicks'' tile_ticks
              (fmupd ''Sections'' (TAG_List sections)
              (fmupd ''zPos'' (TAG_Int (cz chunk))
              (fmupd ''xPos'' (TAG_Int (cx chunk)) fmempty))))))))))))))))
           fmempty)))))))))))))))))"

text \<open>
  The descriptors that the loop of \<^verbatim>\<open>_decode_blocks\<close> appends to the running palette for
  the section \<open>sec\<close>: those of its \<^verbatim>\<open>Palette\<close> when it has one that decodes, none
  otherwise.
\<close>

definition palette_blocks :: "'k externals \<Rightarrow> nbt \<Rightarrow> Block set" where
  "palette_blocks ext sec =
     (if contains sec ''Palette'' = Inr True
      then (case getitem sec ''Palette'' of
              Inr ptag \<Rightarrow> (case decode_palette ext ptag of Inr used \<Rightarrow> set used | Inl e \<Rightarrow> {})
            | Inl e \<Rightarrow> {})
      else {})"

text \<open>
  The order of first appearance of the spec's deduplication pass: every element once, at
  the place of its first occurrence.
\<close>

definition first_appearance :: "'a list \<Rightarrow> 'a list" where
  "first_appearance xs = rev (remdups (rev xs))"

text \<open>
  The fields of \<^verbatim>\<open>data['Level']\<close> that \<^verbatim>\<open>decode\<close> looks up after the blocks and the light
  arrays, in the order of the lookups.
\<close>

definition aux_field_names :: "string list" where
  "aux_field_names =
     [''TileTicks'', ''LastUpdate'', ''Biomes'', ''InhabitedTime'', ''Status'', ''Heightmaps'',
      ''ToBeTicked'', ''PostProcessing'', ''Structures'', ''LiquidTicks'', ''LiquidsToBeTicked'',
      ''Entities'']"

text \<open>\<^verbatim>\<open>tag[k1][k2]...\<close> for the keys of a path.\<close>

fun getpath :: "nbt \<Rightarrow> string list \<Rightarrow> error + nbt" where
  "getpath t [] = Inr t"
| "getpath t (k # ks) = (case getitem t k of Inl e \<Rightarrow> Inl e | Inr v \<Rightarrow> getpath v ks)"

text \<open>\<^verbatim>\<open>encode(chunk, palette, max_world_version)[k1][k2]...\<close>\<close>

definition encoded_path ::
  "'k externals \<Rightarrow> Chunk \<Rightarrow> Block list \<Rightarrow> string \<times> int \<Rightarrow> string list \<Rightarrow> error + nbt"
where
  "encoded_path ext chunk pal version path =
     (case encode ext chunk pal version of Inl e \<Rightarrow> Inl e | Inr data \<Rightarrow> getpath data path)"

section \<open>A worked example\<close>

text \<open>
  The data of the examples that the theorems below are instantiated at. The functions of
  \<open>example_externals\<close> stand in for the imported ones there: one index per long for the
  bit-packing codec, blocks ordered by the length of their base name, the text of a
  string tag for \<^verbatim>\<open>str\<close>, and biomes that already are in the format asked for.
\<close>

definition example_externals :: "nat externals" where
  "example_externals =
     \<lparr>decode_long_array = (\<lambda>longs size. Inr (map nat (take size longs))),
      encode_long_array = (\<lambda>vs. Inr (map int vs)),
      block_key = (\<lambda>b. length (base_name b)),
      str_value = (\<lambda>t. case t of TAG_String s \<Rightarrow> s | _ \<Rightarrow> []),
      convert_to_format = (\<lambda>b n. Inr b)\<rparr>"

text \<open>The array of shape \<open>(n0, n1, n2)\<close> whose element \<open>[i][j][k]\<close> is \<open>f i j k\<close>.\<close>

definition table3 :: "nat \<Rightarrow> nat \<Rightarrow> nat \<Rightarrow> (nat \<Rightarrow> nat \<Rightarrow> nat \<Rightarrow> 'a) \<Rightarrow> 'a list list list" where
  "table3 n0 n1 n2 f = map (\<lambda>i. map (\<lambda>j. map (\<lambda>k. f i j k) [0..<n2]) [0..<n1]) [0..<n0]"

definition stone :: Block where
  "stone = \<lparr>namespace = ''minecraft'', base_name = ''stone'', properties = fmempty\<rparr>"

text \<open>
  A section record of slab 0 with the palette (air, stone), the packed indices \<open>longs\<close>
  and light arrays that are not zero.
\<close>

definition example_section :: "int list \<Rightarrow> nbt" where
  "example_section longs =
     TAG_Compound
       (fmupd ''SkyLight'' (TAG_Byte_Array (replicate 2048 15))
       (fmupd ''BlockLight'' (TAG_Byte_Array (replicate 2048 7))
       (fmupd ''Palette'' (TAG_List (encode_palette [air, stone]))
       (fmupd ''BlockStates'' (TAG_Long_Array longs)
       (fmupd ''Y'' (TAG_Byte 0) fmempty)))))"

text \<open>
  \<open>s\<close> is a section record of slab 0 with the palette (air, stone) and the packed indices
  \<open>longs\<close>.
\<close>

definition slab0_section :: "nbt \<Rightarrow> int list \<Rightarrow> bool" where
  "slab0_section s longs =
     (contains s ''Palette'' = Inr True \<and> getitem s ''Y'' = Inr (TAG_Byte 0) \<and>
      getitem s ''BlockStates'' = Inr (TAG_Long_Array longs) \<and>
      getitem s ''Palette'' = Inr (TAG_List (encode_palette [air, stone])))"

text \<open>Stone at the second position of the stored slab, air everywhere else.\<close>

definition example_longs :: "int list" where
  "example_longs = (replicate 4096 0)[1 := 1]"

text \<open>The volume in public order with stone (index 1) at \<open>(x, y, z) = (1, 0, 0)\<close>.\<close>

definition example_volume :: "nat list list list" where
  "example_volume = table3 16 256 16 (\<lambda>x y z. if x = 1 \<and> y = 0 \<and> z = 0 then 1 else 0)"

text \<open>
  Two malformed section records of slab 0: one with packed indices and no palette, one with
  a palette and no packed indices.
\<close>

definition section_without_palette :: nbt where
  "section_without_palette =
     TAG_Compound (fmupd ''BlockStates'' (TAG_Long_Array example_longs)
       (fmupd ''Y'' (TAG_Byte 0) fmempty))"

definition section_without_blockstates :: nbt where
  "section_without_blockstates =
     TAG_Compound (fmupd ''Palette'' (TAG_List (encode_palette [air, stone]))
       (fmupd ''Y'' (TAG_Byte 0) fmempty))"

text \<open>
  A chunk record at (2, 3) whose only section is the example section; of the six height
  maps it holds \<^verbatim>\<open>MOTION_BLOCKING\<close> alone.
\<close>

definition example_level :: "(string, nbt) fmap" where
  "example_level =
     fmupd ''Entities'' (TAG_List [])
     (fmupd ''LiquidsToBeTicked'' (TAG_List [])
     (fmupd ''LiquidTicks'' (TAG_List [])
     (fmupd ''Structures'' (TAG_Compound fmempty)
     (fmupd ''PostProcessing'' (TAG_List [])
     (fmupd ''ToBeTicked'' (TAG_List [])
     (fmupd ''Heightmaps''
        (TAG_Compound (fmupd ''MOTION_BLOCKING'' (TAG_Long_Array (replicate 36 5)) fmempty))
     (fmupd ''Status'' (TAG_String ''full'')
     (fmupd ''InhabitedTime'' (TAG_Long 10)
     (fmupd ''Biomes'' (TAG_Int_Array (replicate 256 1))
     (fmupd ''LastUpdate'' (TAG_Long 20)
     (fmupd ''TileTicks'' (TAG_List [])
     (fmupd ''Sections'' (TAG_List [example_section example_longs])
     (fmupd ''zPos'' (TAG_Int 3)
     (fmupd ''xPos'' (TAG_Int 2) fmempty))))))))))))))"

definition example_data :: nbt where
  "example_data =
     TAG_Compound (fmupd ''DataVersion'' (TAG_Int 1631)
       (fmupd ''Level'' (TAG_Compound example_level) fmempty))"

text \<open>
  The packed indices with a single 1 at position \<open>n\<close>, the volume in public order with a
  single stone (index 1) at \<open>(a, b, c)\<close>, and the section record of slab 0 that
  \<^verbatim>\<open>_encode_blocks\<close> emits for the palette (air, stone) and the packed indices \<open>longs\<close>.
\<close>

definition one_at :: "nat \<Rightarrow> int list" where
  "one_at n = (replicate 4096 0)[n := 1]"

definition stone_at :: "nat \<Rightarrow> nat \<Rightarrow> nat \<Rightarrow> nat list list list" where
  "stone_at a b c = table3 16 256 16 (\<lambda>x y z. if x = a \<and> y = b \<and> z = c then 1 else 0)"

definition stored_section :: "int list \<Rightarrow> nbt" where
  "stored_section longs =
     TAG_Compound
       (fmupd ''Palette'' (TAG_List (encode_palette [air, stone]))
       (fmupd ''BlockStates'' (TAG_Long_Array longs)
       (fmupd ''Y'' (TAG_Byte 0) fmempty)))"

text \<open>
  The chunk that \<^verbatim>\<open>decode\<close> returns for \<open>example_data\<close>, and the section record that
  \<^verbatim>\<open>encode\<close> emits for it.
\<close>

definition example_chunk :: Chunk where
  "example_chunk =
     \<lparr>cx = 2, cz = 3, blocks = example_volume, entities = [], tileentities = None,
      biomes = replicate 256 1,
      misc =
        fmupd ''LiquidsToBeTicked'' (MiscTag (TAG_List []))
        (fmupd ''LiquidTicksA'' (MiscTag (TAG_List []))
        (fmupd ''StructuresC'' (MiscTag (TAG_Compound fmempty))
        (fmupd ''PostProcessingA'' (MiscTag (TAG_List []))
        (fmupd ''ToBeTickedA'' (MiscTag (TAG_List []))
        (fmupd ''HeightmapsC'' (MiscTag
           (TAG_Compound (fmupd ''MOTION_BLOCKING'' (TAG_Long_Array (replicate 36 5)) fmempty)))
        (fmupd ''StatusSt'' (MiscTag (TAG_String ''full''))
        (fmupd ''InhabitedTimeL'' (MiscTag (TAG_Long 10))
        (fmupd ''LastUpdateL'' (MiscTag (TAG_Long 20))
        (fmupd ''TileTicksA'' (MiscTag (TAG_List []))
        (fmupd ''SkyLight2048BA''
           (MiscDict (fmupd 0 (TAG_Byte_Array (replicate 2048 15)) fmempty))
        (fmupd ''BlockLight2048BA''
           (MiscDict (fmupd 0 (TAG_Byte_Array (replicate 2048 7)) fmempty))
         fmempty))))))))))),
      extra = example_data\<rparr>"

definition example_encoded_section :: nbt where
  "example_encoded_section =
     TAG_Compound
       (fmupd ''SkyLight'' zero_light
       (fmupd ''BlockLight'' zero_light
       (fmupd ''Palette'' (TAG_List (encode_palette [air, stone]))
       (fmupd ''BlockStates'' (TAG_Long_Array (one_at 256))
       (fmupd ''Y'' (TAG_Byte 0) fmempty)))))"

section \<open>Properties\<close>

subsection \<open>Arrays, deduplication and the worked example\<close>

lemma index_of_less: "x \<in> set ys \<Longrightarrow> index_of ys x < length ys"
  by (induction ys) auto

lemma nth_index_of: "x \<in> set ys \<Longrightarrow> ys ! index_of ys x = x"
  by (induction ys) auto

lemma index_of_nth: "distinct ys \<Longrightarrow> i < length ys \<Longrightarrow> index_of ys (ys ! i) = i"
proof (induction ys arbitrary: i)
  case Nil
  then show ?case by simp
next
  case (Cons y ys)
  then show ?case by (cases i) auto
qed

lemma length_run_ids: "length (run_ids p r xs) = length xs"
  by (induction xs arbitrary: p r) auto

lemma length_run_index: "length (run_index aux) = length aux"
  by (simp add: run_index_def length_run_ids split: list.splits)

lemma remdups_adj_head: "remdups_adj (x # xs) ! 0 = x \<and> 0 < length (remdups_adj (x # xs))"
  by (induction xs arbitrary: x) (auto simp: remdups_adj_Cons split: list.splits)

lemma run_ids_nth:
  "j < length xs \<Longrightarrow>
   run_ids p r xs ! j - r < length (remdups_adj (p # xs)) \<and> r \<le> run_ids p r xs ! j \<and>
   remdups_adj (p # xs) ! (run_ids p r xs ! j - r) = xs ! j"
proof (induction xs arbitrary: p r j)
  case Nil
  then show ?case by simp
next
  case (Cons x xs)
  show ?case
  proof (cases j)
    case 0
    then show ?thesis using remdups_adj_head [of x xs] by auto
  next
    case (Suc k)
    with Cons.prems have k: "k < length xs" by simp
    show ?thesis
    proof (cases "x = p")
      case True
      from Cons.IH [OF k, of x r] show ?thesis using True Suc by simp
    next
      case False
      from Cons.IH [OF k, of x "Suc r"] show ?thesis using False Suc
        by (auto simp: Suc_diff_le)
    qed
  qed
qed

lemma run_index_nth:
  assumes "j < length aux"
  shows "run_index aux ! j < length (remdups_adj aux) \<and>
         remdups_adj aux ! (run_index aux ! j) = aux ! j"
proof (cases aux)
  case Nil
  with assms show ?thesis by simp
next
  case (Cons x rest)
  show ?thesis
  proof (cases j)
    case 0
    then show ?thesis using Cons remdups_adj_head [of x rest] by (simp add: run_index_def)
  next
    case (Suc k)
    with assms Cons have "k < length rest" by simp
    from run_ids_nth [OF this, of x 0] show ?thesis using Cons Suc by (simp add: run_index_def)
  qed
qed

lemma sort_key_zip:
  fixes key :: "'a \<Rightarrow> 'k::linorder"
  defines "sp \<equiv> \<lambda>xs. sort_key (\<lambda>p. key (snd p)) (zip [0..<length xs] xs)"
  shows "length (sp xs) = length xs"
    and "set (map fst (sp xs)) = {0..<length xs}"
    and "distinct (map fst (sp xs))"
    and "j < length xs \<Longrightarrow> snd (sp xs ! j) = xs ! fst (sp xs ! j)"
    and "set (map snd (sp xs)) = set xs"
    and "sorted (map key (map snd (sp xs)))"
proof -
  have m: "mset (sp xs) = mset (zip [0..<length xs] xs)" by (simp add: sp_def)
  show l: "length (sp xs) = length xs" by (simp add: sp_def)
  have s: "set (sp xs) = set (zip [0..<length xs] xs)" by (simp add: sp_def)
  have "mset (map fst (sp xs)) = mset (map fst (zip [0..<length xs] xs))"
    using m by (metis mset_map)
  then have mf: "mset (map fst (sp xs)) = mset [0..<length xs]" by simp
  then show "set (map fst (sp xs)) = {0..<length xs}" by (metis atLeastLessThan_upt set_mset_mset)
  from mf show "distinct (map fst (sp xs))" by (metis distinct_upt mset_eq_imp_distinct_iff)
  show "snd (sp xs ! j) = xs ! fst (sp xs ! j)" if "j < length xs"
  proof -
    from that l have "sp xs ! j \<in> set (zip [0..<length xs] xs)" using s nth_mem by metis
    then show ?thesis by (auto simp: in_set_zip)
  qed
  have "mset (map snd (sp xs)) = mset (map snd (zip [0..<length xs] xs))"
    using m by (metis mset_map)
  then have "mset (map snd (sp xs)) = mset xs" by simp
  then show "set (map snd (sp xs)) = set xs" by (metis set_mset_mset)
  show "sorted (map key (map snd (sp xs)))"
    using sorted_sort_key [of "\<lambda>p. key (snd p)" "zip [0..<length xs] xs"]
    by (simp add: sp_def o_def)
qed

lemma numpy_unique_length: "numpy_unique key xs = (u, ix) \<Longrightarrow> length ix = length xs"
  by (auto simp: numpy_unique_def Let_def)

lemma numpy_unique_set: "numpy_unique key xs = (u, ix) \<Longrightarrow> set u = set xs"
  using sort_key_zip(5) [of key xs] by (auto simp: numpy_unique_def Let_def)

lemma numpy_unique_inverse:
  assumes "numpy_unique key xs = (u, ix)" "i < length xs"
  shows "ix ! i < length u \<and> u ! (ix ! i) = xs ! i"
proof -
  let ?sp = "sort_key (\<lambda>p. key (snd p)) (zip [0..<length xs] xs)"
  let ?perm = "map fst ?sp" and ?aux = "map snd ?sp"
  from assms(1) have u: "u = remdups_adj ?aux"
    and ix: "ix = map (\<lambda>i. run_index ?aux ! index_of ?perm i) [0..<length xs]"
    by (auto simp: numpy_unique_def Let_def)
  have m: "i \<in> set ?perm" using sort_key_zip(2) [of key xs] assms(2) by simp
  have j: "index_of ?perm i < length ?perm" "?perm ! index_of ?perm i = i"
    using index_of_less [OF m] nth_index_of [OF m] by blast+
  let ?j = "index_of ?perm i"
  have jl: "?j < length xs" using j(1) by simp
  have "?aux ! ?j = xs ! i"
    using sort_key_zip(4) [OF jl, of key] j(2) jl by simp
  moreover have "?j < length ?aux" using jl by simp
  ultimately show ?thesis
    using run_index_nth [of ?j ?aux] assms(2) by (simp add: u ix)
qed

lemma distinct_remdups_adj_sorted_key:
  "sorted (map key ys) \<Longrightarrow> inj_on key (set ys) \<Longrightarrow> distinct (remdups_adj ys)"
proof (induction ys rule: remdups_adj.induct)
  case 1
  then show ?case by simp
next
  case (2 x)
  then show ?case by simp
next
  case (3 x y zs)
  show ?case
  proof (cases "x = y")
    case True
    with 3 show ?thesis by auto
  next
    case False
    from "3.prems" have "key x \<noteq> key y" using False by (auto simp: inj_on_def)
    moreover from "3.prems" have "key x \<le> key y" "\<forall>z \<in> set zs. key y \<le> key z" by auto
    ultimately have "x \<notin> set (y # zs)" by fastforce
    moreover have "distinct (remdups_adj (y # zs))"
      using 3 False by (auto simp: inj_on_def)
    ultimately show ?thesis using False by simp
  qed
qed

lemma numpy_unique_distinct:
  "numpy_unique key xs = (u, ix) \<Longrightarrow> inj_on key (set xs) \<Longrightarrow> distinct u"
  using sort_key_zip(5,6) [of key xs]
  by (auto simp: numpy_unique_def Let_def intro!: distinct_remdups_adj_sorted_key)

lemma sorted_map_remdups_adj: "sorted (map key ys) \<Longrightarrow> sorted (map key (remdups_adj ys))"
  by (induction ys rule: remdups_adj.induct) auto

lemma numpy_unique_sorted: "numpy_unique key xs = (u, ix) \<Longrightarrow> sorted (map key u)"
  using sort_key_zip(6) [of key xs]
  by (auto simp: numpy_unique_def Let_def intro!: sorted_map_remdups_adj)

lemma numpy_unique_id: "fst (numpy_unique (\<lambda>i. i) xs) = sorted_list_of_set (set xs)"
proof -
  obtain u ix where e: "numpy_unique (\<lambda>i. i) xs = (u, ix)" by (cases "numpy_unique (\<lambda>i. i) xs")
  have "sorted u" using numpy_unique_sorted [OF e] by simp
  moreover have "distinct u" using numpy_unique_distinct [OF e] by simp
  moreover have "set u = set xs" using e by (rule numpy_unique_set)
  ultimately have "u = sorted_list_of_set (set xs)"
    by (metis List.finite_set sorted_list_of_set.idem_if_sorted_distinct)
  with e show ?thesis by simp
qed

lemma numpy_unique_index_of:
  assumes "numpy_unique key xs = (u, ix)" "inj_on key (set xs)"
  shows "ix = map (index_of u) xs"
proof (rule nth_equalityI)
  show "length ix = length (map (index_of u) xs)" using assms(1) by (simp add: numpy_unique_length)
  fix i assume "i < length ix"
  then have i: "i < length xs" using assms(1) by (simp add: numpy_unique_length)
  from numpy_unique_inverse [OF assms(1) i] numpy_unique_distinct [OF assms]
  have "index_of u (xs ! i) = ix ! i" using index_of_nth [of u "ix ! i"] by simp
  with i show "ix ! i = map (index_of u) xs ! i" by simp
qed

lemma fancy_index3_Inr:
  "fancy_index3 a idx = Inr r \<Longrightarrow> p \<in> set r \<Longrightarrow> row \<in> set p \<Longrightarrow> v \<in> set row \<Longrightarrow> \<exists>i < length a. v = a ! i"
  by (fastforce simp: fancy_index3_def list_all_iff split: if_splits)

lemma fancy_index3_nth:
  "fancy_index3 a idx = Inr r \<Longrightarrow> x < length idx \<Longrightarrow> y < length (idx ! x) \<Longrightarrow> z < length (idx ! x ! y)
   \<Longrightarrow> r ! x ! y ! z = a ! (idx ! x ! y ! z) \<and> idx ! x ! y ! z < length a"
  using nth_mem by (fastforce simp: fancy_index3_def list_all_iff split: if_splits)


lemma has_shape_iff:
  "has_shape a n0 n1 n2 \<longleftrightarrow>
     length a = n0 \<and> (\<forall>p \<in> set a. length p = n1 \<and> (\<forall>r \<in> set p. length r = n2))"
  by (auto simp: has_shape_def list_all_iff)

lemma has_shape_nth:
  assumes "has_shape a n0 n1 n2" "i < n0"
  shows "length (a ! i) = n1" and "j < n1 \<Longrightarrow> length (a ! i ! j) = n2"
proof -
  have m: "a ! i \<in> set a" using assms by (simp add: has_shape_iff)
  with assms show l: "length (a ! i) = n1" by (simp add: has_shape_iff)
  assume "j < n1"
  with l have "a ! i ! j \<in> set (a ! i)" by simp
  with m assms show "length (a ! i ! j) = n2" by (auto simp: has_shape_iff)
qed

lemma has_shape_dims:
  "has_shape a n0 n1 n2 \<Longrightarrow> 0 < n0 \<Longrightarrow> dim1 a = n1"
  "has_shape a n0 n1 n2 \<Longrightarrow> 0 < n0 \<Longrightarrow> 0 < n1 \<Longrightarrow> dim2 a = n2"
  by (cases a; cases "hd a"; auto simp: has_shape_iff dim1_def dim2_def)+

lemma has_shape_zeros3: "has_shape (zeros3 n0 n1 n2) n0 n1 n2"
  by (auto simp: has_shape_iff zeros3_def)

lemma has_shape_reshape_16: "reshape_16 xs = Inr c \<Longrightarrow> has_shape c 16 16 16"
  by (auto simp: reshape_16_def has_shape_iff split: if_splits)

lemma has_shape_map: "has_shape c n0 n1 n2 \<Longrightarrow> has_shape (map (map (map f)) c) n0 n1 n2"
  by (auto simp: has_shape_iff)

lemma slice_bound_le: "slice_bound i n \<le> n"
  by (auto simp: slice_bound_def)

lemma has_shape_assign_planes:
  assumes "assign_planes a lo hi v = Inr a'" "has_shape a n0 n1 n2" "has_shape v 16 n1 n2"
  shows "has_shape a' n0 n1 n2"
proof -
  let ?start = "slice_bound lo (length a)" and ?stop = "slice_bound hi (length a)"
  from assms(1) have d: "?stop - ?start = 16" and a': "a' = take ?start a @ v @ drop ?stop a"
    by (auto simp: assign_planes_def Let_def split: if_splits)
  have "?stop \<le> length a" by (rule slice_bound_le)
  with d have "length a' = length a" using assms(3) by (simp add: a' has_shape_iff)
  moreover have "set a' \<subseteq> set a \<union> set v"
    using set_take_subset [of ?start a] set_drop_subset [of ?stop a] by (auto simp: a')
  ultimately show ?thesis using assms(2,3) by (auto simp: has_shape_iff)
qed

lemma has_shape_decode_sections:
  "decode_sections ext secs bs pal = Inr (bs', pal') \<Longrightarrow> has_shape bs n0 16 16
   \<Longrightarrow> has_shape bs' n0 16 16"
proof (induction secs arbitrary: bs pal)
  case Nil
  then show ?case by simp
next
  case (Cons s secs)
  show ?case
  proof (cases "contains s ''Palette'' = Inr True")
    case False
    with Cons show ?thesis by (auto split: sum.splits bool.splits)
  next
    case True
    with Cons.prems(1) obtain y flat cube bs1 loc where
      r: "reshape_16 flat = Inr cube" and
      a: "assign_planes bs (y * 16) (y * 16 + 16) (map (map (map (\<lambda>v. v + length pal))) cube) = Inr bs1" and
      d: "decode_sections ext secs bs1 (pal @ loc) = Inr (bs', pal')"
      by (auto split: sum.splits)
    have "has_shape (map (map (map (\<lambda>v. v + length pal))) cube) 16 16 16"
      using r by (intro has_shape_map has_shape_reshape_16)
    with a Cons.prems(2) have "has_shape bs1 n0 16 16" by (rule has_shape_assign_planes)
    with d show ?thesis by (rule Cons.IH)
  qed
qed

lemma dim1_map_upt: "0 < n \<Longrightarrow> dim1 (map f [0..<n]) = length (f 0)"
  by (cases n) (simp_all add: dim1_def upt_rec)

lemma dim2_map_upt: "0 < n \<Longrightarrow> dim2 (map f [0..<n]) = dim1 (f 0)"
  by (cases n) (simp_all add: dim2_def upt_rec)

lemma swapaxes_0_1_dims:
  assumes "has_shape a n0 n1 n2" "0 < n0" "0 < n1"
  shows "length (swapaxes_0_1 a) = n1" "dim1 (swapaxes_0_1 a) = n0" "dim2 (swapaxes_0_1 a) = n2"
proof -
  have d1: "dim1 a = n1" using assms by (auto intro: has_shape_dims)
  show "length (swapaxes_0_1 a) = n1" by (simp add: swapaxes_0_1_def d1)
  show "dim1 (swapaxes_0_1 a) = n0"
    using assms by (simp add: swapaxes_0_1_def d1 dim1_map_upt has_shape_iff)
  have "length (a ! 0 ! 0) = n2" using assms has_shape_nth(2) [of a n0 n1 n2 0 0] by simp
  then show "dim2 (swapaxes_0_1 a) = n2"
    using assms by (simp add: swapaxes_0_1_def d1 dim2_map_upt dim1_map_upt has_shape_iff)
qed

lemma reorder_axes_nth:
  assumes "has_shape a n0 n1 n2" "x < n2" "y < n0" "z < n1"
  shows "swapaxes_0_2 (swapaxes_0_1 a) ! x ! y ! z = a ! y ! z ! x"
proof -
  have d1: "dim1 a = n1" using assms by (auto intro: has_shape_dims)
  have b: "length (swapaxes_0_1 a) = n1" "dim1 (swapaxes_0_1 a) = n0" "dim2 (swapaxes_0_1 a) = n2"
    using assms by (auto intro: swapaxes_0_1_dims)
  have "swapaxes_0_2 (swapaxes_0_1 a) ! x ! y ! z = swapaxes_0_1 a ! z ! y ! x"
    using assms by (simp add: swapaxes_0_2_def b)
  also have "\<dots> = a ! y ! z ! x"
    using assms by (simp add: swapaxes_0_1_def d1 has_shape_iff)
  finally show ?thesis .
qed

lemma reorder_axes_shape:
  assumes "has_shape a n0 n1 n2" "0 < n0" "0 < n1"
  shows "has_shape (swapaxes_0_2 (swapaxes_0_1 a)) n2 n0 n1"
proof -
  have b: "length (swapaxes_0_1 a) = n1" "dim1 (swapaxes_0_1 a) = n0" "dim2 (swapaxes_0_1 a) = n2"
    using assms by (auto intro: swapaxes_0_1_dims)
  show ?thesis
    by (auto simp: swapaxes_0_2_def b has_shape_iff)
qed

lemma array3_eqI:
  assumes "has_shape a n0 n1 n2" "has_shape b n0 n1 n2"
    and "\<And>i j k. i < n0 \<Longrightarrow> j < n1 \<Longrightarrow> k < n2 \<Longrightarrow> a ! i ! j ! k = b ! i ! j ! k"
  shows "a = b"
proof (rule nth_equalityI)
  show "length a = length b" using assms(1,2) by (simp add: has_shape_iff)
  fix i assume i: "i < length a"
  then have i0: "i < n0" using assms(1) by (simp add: has_shape_iff)
  show "a ! i = b ! i"
  proof (rule nth_equalityI)
    show "length (a ! i) = length (b ! i)"
      using has_shape_nth(1) [OF assms(1) i0] has_shape_nth(1) [OF assms(2) i0] by simp
    fix j assume "j < length (a ! i)"
    then have j1: "j < n1" using has_shape_nth(1) [OF assms(1) i0] by simp
    show "a ! i ! j = b ! i ! j"
    proof (rule nth_equalityI)
      show "length (a ! i ! j) = length (b ! i ! j)"
        using has_shape_nth(2) [OF assms(1) i0 j1] has_shape_nth(2) [OF assms(2) i0 j1] by simp
      fix k assume "k < length (a ! i ! j)"
      then have "k < n2" using has_shape_nth(2) [OF assms(1) i0 j1] by simp
      with i0 j1 show "a ! i ! j ! k = b ! i ! j ! k" by (rule assms(3))
    qed
  qed
qed

lemma reorder_axes_zeros3:
  assumes "0 < n0" "0 < n1"
  shows "swapaxes_0_2 (swapaxes_0_1 (zeros3 n0 n1 n2)) = zeros3 n2 n0 n1"
proof (rule array3_eqI)
  show "has_shape (swapaxes_0_2 (swapaxes_0_1 (zeros3 n0 n1 n2))) n2 n0 n1"
    using has_shape_zeros3 assms by (rule reorder_axes_shape)
  show "has_shape (zeros3 n2 n0 n1) n2 n0 n1" by (rule has_shape_zeros3)
  fix i j k assume "i < n2" "j < n0" "k < n1"
  then show "swapaxes_0_2 (swapaxes_0_1 (zeros3 n0 n1 n2)) ! i ! j ! k = zeros3 n2 n0 n1 ! i ! j ! k"
    using reorder_axes_nth [OF has_shape_zeros3, of i n2 j n0 k n1] by (simp add: zeros3_def)
qed

lemma numpy_unique_single: "numpy_unique key [x] = ([x], [0])"
  by (simp add: numpy_unique_def run_index_def)

lemma fancy_index3_zeros3: "0 < length a \<Longrightarrow> fancy_index3 a (zeros3 n0 n1 n2) = Inr (replicate n0 (replicate n1 (replicate n2 (a ! 0))))"
  by (simp add: fancy_index3_def zeros3_def list_all_iff)

lemma decode_blocks_no_palette:
  "decode_blocks ext [TAG_Compound (fmupd ''Y'' (TAG_Byte 0) fmempty)] = Inr (zeros3 16 256 16, [air])"
  by (simp add: decode_blocks_def reorder_axes_zeros3 numpy_unique_single fancy_index3_zeros3)
     (simp add: zeros3_def)


lemma has_shape_table3: "has_shape (table3 n0 n1 n2 f) n0 n1 n2"
  by (auto simp: has_shape_iff table3_def)

lemma table3_nth: "i < n0 \<Longrightarrow> j < n1 \<Longrightarrow> k < n2 \<Longrightarrow> table3 n0 n1 n2 f ! i ! j ! k = f i j k"
  by (simp add: table3_def)

lemma array3_eq_table3:
  assumes "has_shape a n0 n1 n2"
    and "\<And>i j k. i < n0 \<Longrightarrow> j < n1 \<Longrightarrow> k < n2 \<Longrightarrow> a ! i ! j ! k = f i j k"
  shows "a = table3 n0 n1 n2 f"
  using assms(1) has_shape_table3 by (rule array3_eqI) (simp add: table3_nth assms(2))

lemma fancy_index3_table3:
  assumes "has_shape a n0 n1 n2"
    and "\<And>i j k. i < n0 \<Longrightarrow> j < n1 \<Longrightarrow> k < n2 \<Longrightarrow> a ! i ! j ! k < length ix"
  shows "fancy_index3 ix a = Inr (table3 n0 n1 n2 (\<lambda>i j k. ix ! (a ! i ! j ! k)))"
proof -
  have "v < length ix" if "p \<in> set a" "r \<in> set p" "v \<in> set r" for p r v
  proof -
    from that(1) obtain i where i: "i < length a" "p = a ! i" by (auto simp: in_set_conv_nth)
    from that(2) obtain j where j: "j < length p" "r = p ! j" by (auto simp: in_set_conv_nth)
    from that(3) obtain k where k: "k < length r" "v = r ! k" by (auto simp: in_set_conv_nth)
    have "i < n0" using i assms(1) by (simp add: has_shape_iff)
    moreover have "j < n1" using i j that(1) assms(1) by (auto simp: has_shape_iff)
    moreover have "k < n2" using j k that(1,2) assms(1) by (auto simp: has_shape_iff)
    ultimately show ?thesis using assms(2) [of i j k] i j k by simp
  qed
  then have ok: "list_all (list_all (list_all (\<lambda>i. i < length ix))) a"
    by (auto simp: list_all_iff)
  have "map (map (map (\<lambda>i. ix ! i))) a = table3 n0 n1 n2 (\<lambda>i j k. ix ! (a ! i ! j ! k))"
  proof (rule array3_eq_table3)
    show "has_shape (map (map (map (\<lambda>i. ix ! i))) a) n0 n1 n2"
      using assms(1) by (rule has_shape_map)
    fix i j k assume b: "i < n0" "j < n1" "k < n2"
    have "i < length a" using b assms(1) by (simp add: has_shape_iff)
    moreover have "j < length (a ! i)" using b has_shape_nth(1) [OF assms(1), of i] by simp
    moreover have "k < length (a ! i ! j)" using b has_shape_nth(2) [OF assms(1), of i j] by simp
    ultimately show "map (map (map (\<lambda>i. ix ! i))) a ! i ! j ! k = ix ! (a ! i ! j ! k)" by simp
  qed
  with ok show ?thesis by (simp add: fancy_index3_def)
qed

lemma reshape_16_nth:
  "reshape_16 xs = Inr c \<Longrightarrow> i < 16 \<Longrightarrow> j < 16 \<Longrightarrow> k < 16 \<Longrightarrow> c ! i ! j ! k = xs ! (256 * i + 16 * j + k)"
  by (auto simp: reshape_16_def split: if_splits)

lemma reshape_16_table3:
  "length xs = 4096 \<Longrightarrow> reshape_16 xs = Inr (table3 16 16 16 (\<lambda>i j k. xs ! (256 * i + 16 * j + k)))"
  by (simp only: reshape_16_def table3_def simp_thms if_True)

lemma decode_palette_example:
  "decode_palette example_externals (TAG_List (encode_palette [air, stone])) = Inr [air, stone]"
  by (simp add: decode_palette_def encode_palette_def decode_palette_entry_def
      encode_palette_entry_def split_colon_def air_def stone_def example_externals_def)

lemma decode_sections_slab0:
  assumes "slab0_section s longs" "length longs = 4096"
  shows "decode_sections example_externals [s] (zeros3 256 16 16) [air] =
         Inr (map (map (map (\<lambda>v. v + 1)))
                (table3 16 16 16 (\<lambda>i j k. map nat longs ! (256 * i + 16 * j + k)))
              @ replicate 240 (replicate 16 (replicate 16 0)), [air, air, stone])"
proof -
  have s: "contains s ''Palette'' = Inr True" "getitem s ''Y'' = Inr (TAG_Byte 0)"
    "getitem s ''BlockStates'' = Inr (TAG_Long_Array longs)"
    "getitem s ''Palette'' = Inr (TAG_List (encode_palette [air, stone]))"
    using assms(1) by (simp_all add: slab0_section_def)
  have d: "decode_long_array example_externals longs 4096 = Inr (map nat longs)"
    using assms(2) by (simp add: example_externals_def)
  have r: "reshape_16 (map nat longs) =
      Inr (table3 16 16 16 (\<lambda>i j k. map nat longs ! (256 * i + 16 * j + k)))"
    using assms(2) by (simp add: reshape_16_table3)
  have l: "length (table3 16 16 16 f) = 16" for f :: "nat \<Rightarrow> nat \<Rightarrow> nat \<Rightarrow> nat"
    by (simp add: table3_def)
  show ?thesis
    by (simp add: s d r decode_palette_example assign_planes_def slice_bound_def zeros3_def l)
qed

lemma example_section_slab0: "slab0_section (example_section longs) longs"
  by (simp add: slab0_section_def example_section_def)

lemma decode_sections_example:
  assumes "length longs = 4096"
  shows "decode_sections example_externals [example_section longs] (zeros3 256 16 16) [air] =
         Inr (map (map (map (\<lambda>v. v + 1)))
                (table3 16 16 16 (\<lambda>i j k. map nat longs ! (256 * i + 16 * j + k)))
              @ replicate 240 (replicate 16 (replicate 16 0)), [air, air, stone])"
  using example_section_slab0 assms by (rule decode_sections_slab0)

lemma table3_cong:
  assumes "\<And>i j k. i < n0 \<Longrightarrow> j < n1 \<Longrightarrow> k < n2 \<Longrightarrow> f i j k = g i j k"
  shows "table3 n0 n1 n2 f = table3 n0 n1 n2 g"
  using has_shape_table3 by (rule array3_eq_table3) (simp add: table3_nth assms)

lemma numpy_unique_example:
  "numpy_unique (block_key example_externals) [air, air, stone] = ([air, stone], [0, 0, 1])"
  by (simp add: numpy_unique_def run_index_def example_externals_def air_def stone_def)

lemma decode_blocks_slab0:
  assumes sec: "slab0_section s longs"
    and len: "length longs = 4096" and bits: "list_all (\<lambda>v. v = 0 \<or> v = 1) longs"
  shows "decode_blocks example_externals [s] =
         Inr (table3 16 256 16
                (\<lambda>x y z. if y < 16 then nat (longs ! (256 * y + 16 * z + x)) else 0),
              [air, stone])"
proof -
  let ?cube = "table3 16 16 16 (\<lambda>i j k. map nat longs ! (256 * i + 16 * j + k))"
  let ?storage = "map (map (map (\<lambda>v. v + 1))) ?cube @ replicate 240 (replicate 16 (replicate 16 0))"
  let ?ix = "[0, 0, 1 :: nat]"
  have d: "decode_sections example_externals [s] (zeros3 256 16 16) [air] =
           Inr (?storage, [air, air, stone])"
    using sec len by (rule decode_sections_slab0)
  have s: "has_shape ?storage 256 16 16"
    using d has_shape_zeros3 by (rule has_shape_decode_sections)
  have s': "has_shape (swapaxes_0_2 (swapaxes_0_1 ?storage)) 16 256 16"
    using s by (rule reorder_axes_shape) simp_all
  have lc: "length ?cube = 16" by (simp add: table3_def)
  have v: "longs ! n = 0 \<or> longs ! n = 1" if "n < 4096" for n
    using bits len that by (simp add: list_all_length)
  have e: "swapaxes_0_2 (swapaxes_0_1 ?storage) ! x ! y ! z =
           (if y < 16 then nat (longs ! (256 * y + 16 * z + x)) + 1 else 0)"
    if b: "x < 16" "y < 256" "z < 16" for x y z
  proof -
    have "swapaxes_0_2 (swapaxes_0_1 ?storage) ! x ! y ! z = ?storage ! y ! z ! x"
      using s b by (rule reorder_axes_nth)
    also have "\<dots> = (if y < 16 then nat (longs ! (256 * y + 16 * z + x)) + 1 else 0)"
    proof (cases "y < 16")
      case True
      then have "256 * y + 16 * z + x < 4096" using b by simp
      moreover have "?storage ! y ! z ! x = ?cube ! y ! z ! x + 1"
        using True b by (simp add: nth_append lc table3_def)
      ultimately show ?thesis using True b len by (simp add: table3_nth)
    next
      case False
      then show ?thesis using b by (simp add: nth_append lc)
    qed
    finally show ?thesis .
  qed
  have f: "fancy_index3 ?ix (swapaxes_0_2 (swapaxes_0_1 ?storage)) =
           Inr (table3 16 256 16 (\<lambda>i j k. ?ix ! (swapaxes_0_2 (swapaxes_0_1 ?storage) ! i ! j ! k)))"
  proof (rule fancy_index3_table3 [OF s'])
    fix i j k :: nat assume b: "i < 16" "j < 256" "k < 16"
    show "swapaxes_0_2 (swapaxes_0_1 ?storage) ! i ! j ! k < length ?ix"
    proof (cases "j < 16")
      case True
      then have "256 * j + 16 * k + i < 4096" using b by simp
      from v [OF this] show ?thesis unfolding e [OF b] using True by auto
    next
      case False
      then show ?thesis unfolding e [OF b] by simp
    qed
  qed
  have t: "table3 16 256 16 (\<lambda>i j k. ?ix ! (swapaxes_0_2 (swapaxes_0_1 ?storage) ! i ! j ! k)) =
           table3 16 256 16 (\<lambda>x y z. if y < 16 then nat (longs ! (256 * y + 16 * z + x)) else 0)"
  proof (rule table3_cong)
    fix i j k :: nat assume b: "i < 16" "j < 256" "k < 16"
    show "?ix ! (swapaxes_0_2 (swapaxes_0_1 ?storage) ! i ! j ! k) =
          (if j < 16 then nat (longs ! (256 * j + 16 * k + i)) else 0)"
    proof (cases "j < 16")
      case True
      then have "256 * j + 16 * k + i < 4096" using b by simp
      from v [OF this] show ?thesis unfolding e [OF b] using True by auto
    next
      case False
      then show ?thesis unfolding e [OF b] by simp
    qed
  qed
  show ?thesis
    unfolding decode_blocks_def by (simp only: d numpy_unique_example f t Let_def
      list.simps sum.case prod.case if_False)
qed

lemma decode_blocks_example:
  assumes "length longs = 4096" and "list_all (\<lambda>v. v = 0 \<or> v = 1) longs"
  shows "decode_blocks example_externals [example_section longs] =
         Inr (table3 16 256 16
                (\<lambda>x y z. if y < 16 then nat (longs ! (256 * y + 16 * z + x)) else 0),
              [air, stone])"
  using example_section_slab0 assms by (rule decode_blocks_slab0)

lemma length_table3: "length (table3 n0 n1 n2 f) = n0"
  by (simp add: table3_def)

lemma table3_map_append_nth:
  "i < n0 \<Longrightarrow> j < n1 \<Longrightarrow> k < n2 \<Longrightarrow>
   (map (map (map g)) (table3 n0 n1 n2 f) @ rest) ! i ! j ! k = g (f i j k)"
  by (simp add: table3_def nth_append)

lemma example_longs_nth: "n < 4096 \<Longrightarrow> example_longs ! n = (if n = 1 then 1 else 0)"
  by (simp add: example_longs_def nth_list_update)

lemma example_longs_ok:
  "length example_longs = 4096" "list_all (\<lambda>v. v = 0 \<or> v = 1) example_longs"
  by (simp_all add: example_longs_def list_all_length nth_list_update)

lemma decode_blocks_example_volume:
  "decode_blocks example_externals [example_section example_longs] =
   Inr (example_volume, [air, stone])"
proof -
  have "table3 16 256 16 (\<lambda>x y z. if y < 16 then nat (example_longs ! (256 * y + 16 * z + x)) else 0)
        = example_volume"
    unfolding example_volume_def
  proof (rule table3_cong)
    fix i j k :: nat assume b: "i < 16" "j < 256" "k < 16"
    show "(if j < 16 then nat (example_longs ! (256 * j + 16 * k + i)) else 0) =
          (if i = 1 \<and> j = 0 \<and> k = 0 then 1 else 0)"
    proof (cases "j < 16")
      case True
      then have "256 * j + 16 * k + i < 4096" using b by simp
      moreover have "256 * j + 16 * k + i = 1 \<longleftrightarrow> i = 1 \<and> j = 0 \<and> k = 0"
        by (cases j; cases k) auto
      ultimately show ?thesis using True by (simp add: example_longs_nth)
    next
      case False
      then show ?thesis by auto
    qed
  qed
  then show ?thesis using decode_blocks_example [OF example_longs_ok] by simp
qed

subsection \<open>The sections that the encoder emits\<close>

lemma map_result_Inr:
  "map_result f xs = Inr ys \<Longrightarrow> length ys = length xs \<and> (\<forall>i < length xs. f (xs ! i) = Inr (ys ! i))"
proof (induction xs arbitrary: ys)
  case Nil
  then show ?case by simp
next
  case (Cons x xs)
  then show ?case by (auto split: sum.splits simp: nth_Cons split: nat.splits)
qed

lemma map_result_all_Inr:
  "(\<And>x. x \<in> set xs \<Longrightarrow> f x = Inr (g x)) \<Longrightarrow> map_result f xs = Inr (map g xs)"
  by (induction xs) simp_all

lemma encode_blocks_sections:
  assumes "encode_blocks ext bs pal = Inr secs" "sec \<in> set secs"
  shows "\<exists>y < 16. encode_section ext bs pal y = Inr (Some sec)"
proof -
  from assms(1) obtain rs where
    r: "map_result (encode_section ext bs pal) [0..<16] = Inr rs" and
    s: "secs = concat (map (\<lambda>s. case s of None \<Rightarrow> [] | Some sec \<Rightarrow> [sec]) rs)"
    by (auto simp: encode_blocks_def split: sum.splits)
  from s assms(2) have "Some sec \<in> set rs" by (auto split: option.splits)
  then obtain i where i: "i < length rs" "rs ! i = Some sec" by (auto simp: in_set_conv_nth)
  from map_result_Inr [OF r] i have "i < 16" "encode_section ext bs pal i = Inr (Some sec)"
    by auto
  then show ?thesis by blast
qed

lemma encode_section_Some:
  assumes "encode_section ext bs pal y = Inr (Some sec)"
  shows "getitem sec ''Y'' = Inr (TAG_Byte (int y))"
    and "getitem sec ''Palette'' =
           Inr (TAG_List (encode_palette
             (map (\<lambda>i. pal ! i) (sorted_list_of_set (set (slab_indices bs y))))))"
    and "\<forall>i \<in> set (slab_indices bs y). i < length pal"
    and "\<exists>longs. encode_long_array ext (snd (numpy_unique (\<lambda>i. i) (slab_indices bs y))) = Inr longs
           \<and> getitem sec ''BlockStates'' = Inr (TAG_Long_Array longs)"
proof -
  obtain sub ix where u: "numpy_unique (\<lambda>i. i) (slab_indices bs y) = (sub, ix)"
    by (cases "numpy_unique (\<lambda>i. i) (slab_indices bs y)")
  have sub: "sub = sorted_list_of_set (set (slab_indices bs y))"
    using numpy_unique_id [of "slab_indices bs y"] u by simp
  have e: "encode_section ext bs pal y =
      (case fancy_index pal sub of
         Inl e \<Rightarrow> Inl e
       | Inr used \<Rightarrow>
           if length (encode_palette used) = 1 \<and>
              getitem (encode_palette used ! 0) ''Name'' = Inr (TAG_String ''minecraft:air'')
           then Inr None
           else (case encode_long_array ext ix of
                   Inl e \<Rightarrow> Inl e
                 | Inr longs \<Rightarrow>
                     Inr (Some (TAG_Compound
                       (fmupd ''Palette'' (TAG_List (encode_palette used))
                         (fmupd ''BlockStates'' (TAG_Long_Array longs)
                           (fmupd ''Y'' (TAG_Byte (int y)) fmempty)))))))"
    unfolding encode_section_def u by (simp only: prod.case Let_def)
  from assms e obtain used where used: "fancy_index pal sub = Inr used"
    by (cases "fancy_index pal sub") simp_all
  then have ok: "list_all (\<lambda>i. i < length pal) sub" and um: "used = map (\<lambda>i. pal ! i) sub"
    by (simp_all add: fancy_index_def split: if_splits)
  from assms e used obtain longs where
    l: "encode_long_array ext ix = Inr longs" and
    sec: "sec = TAG_Compound
            (fmupd ''Palette'' (TAG_List (encode_palette (map (\<lambda>i. pal ! i) sub)))
              (fmupd ''BlockStates'' (TAG_Long_Array longs)
                (fmupd ''Y'' (TAG_Byte (int y)) fmempty)))"
    by (cases "encode_long_array ext ix") (simp_all add: um split: if_splits)
  show "getitem sec ''Y'' = Inr (TAG_Byte (int y))" by (simp add: sec)
  show "getitem sec ''Palette'' =
           Inr (TAG_List (encode_palette
             (map (\<lambda>i. pal ! i) (sorted_list_of_set (set (slab_indices bs y))))))"
    by (simp add: sec sub)
  show "\<forall>i \<in> set (slab_indices bs y). i < length pal"
    using ok by (simp add: sub list_all_iff)
  show "\<exists>longs. encode_long_array ext (snd (numpy_unique (\<lambda>i. i) (slab_indices bs y))) = Inr longs
           \<and> getitem sec ''BlockStates'' = Inr (TAG_Long_Array longs)"
    using l u by (simp add: sec)
qed

lemma encode_section_air:
  assumes d: "distinct pal" and ne: "slab_indices bs y \<noteq> []"
    and a: "\<forall>i \<in> set (slab_indices bs y). i < length pal \<and> pal ! i = air"
  shows "encode_section ext bs pal y = Inr None"
proof -
  from ne obtain i0 where i0: "i0 \<in> set (slab_indices bs y)" by (cases "slab_indices bs y") auto
  have "i = i0" if "i \<in> set (slab_indices bs y)" for i
  proof -
    from a i0 that have b: "i < length pal" "i0 < length pal" and e: "pal ! i = pal ! i0"
      by auto
    from nth_eq_iff_index_eq [OF d b] e show ?thesis by blast
  qed
  then have "\<forall>i \<in> set (slab_indices bs y). i = i0" by blast
  with i0 have s: "set (slab_indices bs y) = {i0}" by blast
  have u: "fst (numpy_unique (\<lambda>i. i) (slab_indices bs y)) = [i0]"
    by (simp add: numpy_unique_id s)
  have "pal ! i0 = air" "i0 < length pal" using a i0 by auto
  then have f: "fancy_index pal [i0] = Inr [air]" by (simp add: fancy_index_def)
  have n: "length (encode_palette [air]) = 1"
    "getitem (encode_palette [air] ! 0) ''Name'' = Inr (TAG_String ''minecraft:air'')"
    by (simp_all add: encode_palette_def encode_palette_entry_def air_def)
  obtain ix where "numpy_unique (\<lambda>i. i) (slab_indices bs y) = ([i0], ix)"
    using u by (cases "numpy_unique (\<lambda>i. i) (slab_indices bs y)") simp
  then show ?thesis
    unfolding encode_section_def by (simp only: prod.case Let_def f sum.case n simp_thms if_True)
qed

lemma concat_map_upt:
  "concat (map (\<lambda>i. map (g i) [0..<m]) [0..<n]) = map (\<lambda>k. g (k div m) (k mod m)) [0..<n * m]"
proof (induction n)
  case 0
  then show ?case by simp
next
  case (Suc n)
  let ?F = "\<lambda>k. g (k div m) (k mod m)"
  have step: "map ?F [n * m..<n * m + m] = map (g n) [0..<m]"
  proof (rule nth_equalityI)
    show "length (map ?F [n * m..<n * m + m]) = length (map (g n) [0..<m])"
      by simp
    fix i assume "i < length (map ?F [n * m..<n * m + m])"
    then have i: "i < m" by simp
    then have "(n * m + i) div m = n" "(n * m + i) mod m = i" by simp_all
    then have "?F (n * m + i) = g n i" by simp
    with i show "map ?F [n * m..<n * m + m] ! i = map (g n) [0..<m] ! i"
      by (simp only: nth_map nth_upt length_upt add_diff_cancel_left' add_0)
  qed
  have "concat (map (\<lambda>i. map (g i) [0..<m]) [0..<Suc n]) =
        concat (map (\<lambda>i. map (g i) [0..<m]) [0..<n]) @ map (g n) [0..<m]"
    by simp
  also have "\<dots> = map ?F [0..<n * m] @ map ?F [n * m..<n * m + m]"
    by (simp only: Suc.IH step)
  also have "\<dots> = map ?F ([0..<n * m] @ [n * m..<n * m + m])"
    by (simp only: map_append)
  also have "[0..<n * m] @ [n * m..<n * m + m] = [0..<n * m + m]"
    using upt_add_eq_append [of 0 "n * m" m] by simp
  also have "n * m + m = Suc n * m" by simp
  finally show ?case .
qed

lemma concat_concat_map: "concat (concat xss) = concat (map concat xss)"
  by (induction xss) simp_all

lemma take_drop_map_upt:
  assumes "lo + n \<le> m"
  shows "take n (drop lo (map h [0..<m])) = map (\<lambda>j. h (lo + j)) [0..<n]"
proof (rule nth_equalityI)
  show "length (take n (drop lo (map h [0..<m]))) = length (map (\<lambda>j. h (lo + j)) [0..<n])"
    using assms by simp
  fix i assume "i < length (take n (drop lo (map h [0..<m])))"
  then have "i < n" by simp
  then show "take n (drop lo (map h [0..<m])) ! i = map (\<lambda>j. h (lo + j)) [0..<n] ! i"
    using assms by simp
qed

lemma slab_indices_table3:
  assumes "y < 16"
  shows "slab_indices (table3 16 256 16 f) y =
         map (\<lambda>n. f (n div 256) (y * 16 + n mod 256 div 16) (n mod 256 mod 16)) [0..<4096]"
proof -
  have t: "take 16 (drop (y * 16) (map h [0..<256])) = map (\<lambda>j. h (y * 16 + j)) [0..<16]"
    for h :: "nat \<Rightarrow> nat list"
    using assms by (intro take_drop_map_upt) simp
  have "slab_indices (table3 16 256 16 f) y =
        concat (map (\<lambda>i. concat (map (\<lambda>j. map (\<lambda>k. f i (y * 16 + j) k) [0..<16]) [0..<16])) [0..<16])"
    unfolding slab_indices_def table3_def
    by (simp only: map_map o_def t concat_concat_map)
  also have "\<dots> = concat (map (\<lambda>i. map (\<lambda>n. f i (y * 16 + n div 16) (n mod 16)) [0..<256]) [0..<16])"
    using concat_map_upt [of "\<lambda>j k. f i (y * 16 + j) k" 16 16 for i] by simp
  also have "\<dots> = map (\<lambda>n. f (n div 256) (y * 16 + n mod 256 div 16) (n mod 256 mod 16)) [0..<4096]"
    using concat_map_upt [of "\<lambda>i n. f i (y * 16 + n div 16) (n mod 16)" 256 16] by simp
  finally show ?thesis .
qed

lemma numpy_unique_zero_one:
  assumes "set xs = {0, 1 :: nat}"
  shows "numpy_unique (\<lambda>i. i) xs = ([0, 1], xs)"
proof -
  obtain u ix where e: "numpy_unique (\<lambda>i. i) xs = (u, ix)" by (cases "numpy_unique (\<lambda>i. i) xs")
  have u: "u = [0, 1]"
    using numpy_unique_id [of xs] by (simp add: e assms)
  have "ix = map (index_of u) xs" using e by (rule numpy_unique_index_of) simp
  also have "\<dots> = xs" unfolding u using assms by (intro map_idI) auto
  finally show ?thesis using e u by simp
qed

lemma numpy_unique_zero:
  assumes "set xs = {0 :: nat}"
  shows "numpy_unique (\<lambda>i. i) xs = ([0], xs)"
proof -
  obtain u ix where e: "numpy_unique (\<lambda>i. i) xs = (u, ix)" by (cases "numpy_unique (\<lambda>i. i) xs")
  have u: "u = [0]"
    using numpy_unique_id [of xs] by (simp add: e assms)
  have "ix = map (index_of u) xs" using e by (rule numpy_unique_index_of) simp
  also have "\<dots> = xs" unfolding u using assms by (intro map_idI) auto
  finally show ?thesis using e u by simp
qed

lemma digits16:
  assumes "b < 16" "c < (16::nat)"
  shows "(n div 256 = a \<and> n mod 256 div 16 = b \<and> n mod 256 mod 16 = c) \<longleftrightarrow> n = 256 * a + 16 * b + c"
proof
  assume h: "n div 256 = a \<and> n mod 256 div 16 = b \<and> n mod 256 mod 16 = c"
  have "n = 256 * (n div 256) + n mod 256" by simp
  also have "n mod 256 = 16 * (n mod 256 div 16) + n mod 256 mod 16" by simp
  finally show "n = 256 * a + 16 * b + c" using h by simp
next
  assume n: "n = 256 * a + 16 * b + c"
  have k: "16 * b + c < 256" using assms by simp
  have "n = 256 * a + (16 * b + c)" using n by simp
  then have "n div 256 = a" "n mod 256 = 16 * b + c" using k by simp_all
  moreover have "(16 * b + c) div 16 = b" "(16 * b + c) mod 16 = c" using assms by simp_all
  ultimately show "n div 256 = a \<and> n mod 256 div 16 = b \<and> n mod 256 mod 16 = c" by simp
qed

lemma digits16_unique:
  assumes "x < 16" "z < 16" "a < 16" "c < (16::nat)"
  shows "256 * y + 16 * z + x = 256 * b + 16 * c + a \<longleftrightarrow> y = b \<and> z = c \<and> x = a"
proof
  assume e: "256 * y + 16 * z + x = 256 * b + 16 * c + a"
  let ?n = "256 * y + 16 * z + x"
  have 1: "?n div 256 = y \<and> ?n mod 256 div 16 = z \<and> ?n mod 256 mod 16 = x"
    using digits16 [OF assms(2,1), of ?n y] by blast
  have 2: "?n div 256 = b \<and> ?n mod 256 div 16 = c \<and> ?n mod 256 mod 16 = a"
    using digits16 [OF assms(4,3), of ?n b] e by blast
  from 1 2 show "y = b \<and> z = c \<and> x = a" by metis
next
  assume "y = b \<and> z = c \<and> x = a"
  then show "256 * y + 16 * z + x = 256 * b + 16 * c + a" by blast
qed


lemma one_at_nth: "k < 4096 \<Longrightarrow> one_at n ! k = (if k = n then 1 else 0)"
  by (simp add: one_at_def nth_list_update)

lemma one_at_ok: "length (one_at n) = 4096" "list_all (\<lambda>v. v = 0 \<or> v = 1) (one_at n)"
proof -
  show "length (one_at n) = 4096" by (simp add: one_at_def)
  have "set (one_at n) \<subseteq> insert 1 (set (replicate 4096 0))"
    unfolding one_at_def by (rule set_update_subset_insert)
  then show "list_all (\<lambda>v. v = 0 \<or> v = 1) (one_at n)"
    by (auto simp: list_all_iff)
qed

lemma stored_section_slab0: "slab0_section (stored_section longs) longs"
  by (simp add: slab0_section_def stored_section_def)

lemma decode_blocks_stone_at:
  assumes "a < 16" "b < 16" "c < 16" and s: "slab0_section s (one_at (256 * b + 16 * c + a))"
  shows "decode_blocks example_externals [s] = Inr (stone_at a b c, [air, stone])"
proof -
  let ?m = "256 * b + 16 * c + a"
  have "table3 16 256 16 (\<lambda>x y z. if y < 16 then nat (one_at ?m ! (256 * y + 16 * z + x)) else 0)
        = stone_at a b c"
    unfolding stone_at_def
  proof (rule table3_cong)
    fix i j k :: nat assume r: "i < 16" "j < 256" "k < 16"
    show "(if j < 16 then nat (one_at ?m ! (256 * j + 16 * k + i)) else 0) =
          (if i = a \<and> j = b \<and> k = c then 1 else 0)"
    proof (cases "j < 16")
      case True
      then have "256 * j + 16 * k + i < 4096" using r by simp
      then have "one_at ?m ! (256 * j + 16 * k + i) = (if 256 * j + 16 * k + i = ?m then 1 else 0)"
        by (rule one_at_nth)
      moreover have "256 * j + 16 * k + i = ?m \<longleftrightarrow> j = b \<and> k = c \<and> i = a"
        using r(1,3) assms(1,3) by (rule digits16_unique)
      ultimately show ?thesis using True by auto
    next
      case False
      then show ?thesis using assms(2) by auto
    qed
  qed
  with decode_blocks_slab0 [OF s one_at_ok] show ?thesis by simp
qed

lemma slab_stone_at_0:
  assumes "b < 16" "c < 16"
  shows "slab_indices (stone_at a b c) 0 =
         map (\<lambda>n. if n = 256 * a + 16 * b + c then 1 else 0) [0..<4096]"
proof -
  have "slab_indices (stone_at a b c) 0 =
        map (\<lambda>n. if n div 256 = a \<and> 0 * 16 + n mod 256 div 16 = b \<and> n mod 256 mod 16 = c
                  then 1 else 0) [0..<4096]"
    unfolding stone_at_def by (rule slab_indices_table3) simp
  also have "\<dots> = map (\<lambda>n. if n = 256 * a + 16 * b + c then 1 else 0) [0..<4096]"
    using digits16 [OF assms] by simp
  finally show ?thesis .
qed

lemma slab_stone_at_Suc:
  assumes "b < 16" "0 < y" "y < 16"
  shows "slab_indices (stone_at a b c) y = replicate 4096 0"
proof -
  have "slab_indices (stone_at a b c) y =
        map (\<lambda>n. if n div 256 = a \<and> y * 16 + n mod 256 div 16 = b \<and> n mod 256 mod 16 = c
                  then 1 else 0) [0..<4096]"
    unfolding stone_at_def using assms(3) by (rule slab_indices_table3)
  also have "\<dots> = map (\<lambda>n. 0) [0..<4096]"
    using assms(1,2) by (intro map_cong refl) auto
  also have "\<dots> = replicate 4096 0" by (simp only: map_replicate_const length_upt diff_zero)
  finally show ?thesis .
qed

lemma encode_section_zero:
  assumes "set (slab_indices V y) = {0}"
  shows "encode_section ext V (air # rest) y = Inr None"
proof -
  have u: "numpy_unique (\<lambda>i. i) (slab_indices V y) = ([0], slab_indices V y)"
    using assms by (rule numpy_unique_zero)
  have f: "fancy_index (air # rest) [0] = Inr [air]" by (simp add: fancy_index_def)
  have n: "length (encode_palette [air]) = 1"
    "getitem (encode_palette [air] ! 0) ''Name'' = Inr (TAG_String ''minecraft:air'')"
    by (simp_all add: encode_palette_def encode_palette_entry_def air_def)
  show ?thesis
    unfolding encode_section_def u
    by (simp only: prod.case Let_def f sum.case n simp_thms if_True)
qed

lemma encode_section_zero_one:
  assumes "set (slab_indices V y) = {0, 1}"
  shows "encode_section example_externals V [air, stone] y =
         Inr (Some (TAG_Compound
           (fmupd ''Palette'' (TAG_List (encode_palette [air, stone]))
             (fmupd ''BlockStates'' (TAG_Long_Array (map int (slab_indices V y)))
               (fmupd ''Y'' (TAG_Byte (int y)) fmempty)))))"
proof -
  have u: "numpy_unique (\<lambda>i. i) (slab_indices V y) = ([0, 1], slab_indices V y)"
    using assms by (rule numpy_unique_zero_one)
  have f: "fancy_index [air, stone] [0, 1] = Inr [air, stone]" by (simp add: fancy_index_def)
  have n: "length (encode_palette [air, stone]) \<noteq> 1" by (simp add: encode_palette_def)
  have l: "encode_long_array example_externals xs = Inr (map int xs)" for xs
    by (simp add: example_externals_def)
  show ?thesis
    unfolding encode_section_def u
    by (simp only: prod.case Let_def f sum.case n l simp_thms if_False)
qed

lemma map_one_at:
  assumes "m < 4096"
  shows "map int (map (\<lambda>n. if n = m then 1 else 0) [0..<4096]) = one_at m"
proof (rule nth_equalityI)
  show "length (map int (map (\<lambda>n. if n = m then 1 else 0) [0..<4096])) = length (one_at m)"
    by (simp add: one_at_ok)
  fix i assume "i < length (map int (map (\<lambda>n. if n = m then 1 else 0) [0..<4096]))"
  then have "i < 4096" by simp
  then show "map int (map (\<lambda>n. if n = m then 1 else 0) [0..<4096]) ! i = one_at m ! i"
    by (simp add: one_at_nth)
qed

lemma set_one_hot:
  assumes "m < 4096"
  shows "set (map (\<lambda>n. if n = m then 1 else 0 :: nat) [0..<4096]) = {0, 1}"
proof -
  have "m \<in> {0..<4096}" using assms by simp
  moreover have "(if m = 0 then 1 else 0) \<in> {0..<4096::nat}" by simp
  moreover have "(if m = 0 then 1 else 0) \<noteq> m" by simp
  ultimately have "{0, 1} \<subseteq> (\<lambda>n. if n = m then 1 else 0 :: nat) ` {0..<4096}"
    by (smt (verit) image_iff insert_subset empty_subsetI)
  then show ?thesis by auto
qed

lemma encode_blocks_split:
  assumes "encode_section ext V pal 0 = Inr (Some sec)"
    and "\<And>y. 0 < y \<Longrightarrow> y < 16 \<Longrightarrow> encode_section ext V pal y = Inr None"
  shows "encode_blocks ext V pal = Inr [sec]"
proof -
  have u: "[0..<16] = 0 # [1..<16]" by (simp add: upt_conv_Cons)
  have "map_result (encode_section ext V pal) [1..<16] = Inr (map (\<lambda>y. None) [1..<16])"
    using assms(2) by (intro map_result_all_Inr) simp
  then have "map_result (encode_section ext V pal) [0..<16] = Inr (Some sec # map (\<lambda>y. None) [1..<16])"
    unfolding u by (simp add: assms(1))
  then show ?thesis
    unfolding encode_blocks_def by (simp add: o_def)
qed

lemma encode_blocks_stone_at:
  assumes "a < 16" "b < 16" "c < 16"
  shows "encode_blocks example_externals (stone_at a b c) [air, stone] =
         Inr [stored_section (one_at (256 * a + 16 * b + c))]"
proof (rule encode_blocks_split)
  let ?m = "256 * a + 16 * b + c"
  have m: "?m < 4096" using assms by simp
  have s: "slab_indices (stone_at a b c) 0 = map (\<lambda>n. if n = ?m then 1 else 0) [0..<4096]"
    using assms(2,3) by (rule slab_stone_at_0)
  have "set (slab_indices (stone_at a b c) 0) = {0, 1}"
    unfolding s using m by (rule set_one_hot)
  from encode_section_zero_one [OF this]
  show "encode_section example_externals (stone_at a b c) [air, stone] 0 =
        Inr (Some (stored_section (one_at ?m)))"
    unfolding s map_one_at [OF m] by (simp add: stored_section_def)
next
  fix y :: nat assume y: "0 < y" "y < 16"
  have "slab_indices (stone_at a b c) y = replicate 4096 0"
    using assms(2) y by (rule slab_stone_at_Suc)
  then have "set (slab_indices (stone_at a b c) y) = {0}" by simp
  then show "encode_section example_externals (stone_at a b c) [air, stone] y = Inr None"
    by (rule encode_section_zero)
qed

lemma first_appearance_Cons_replicate:
  "first_appearance ((1::nat) # replicate (Suc n) 0) = [1, 0]"
proof -
  have r: "remdups (replicate (Suc k) (0::nat) @ [1]) = [0, 1]" for k
    by (induction k) simp_all
  have "rev ((1::nat) # replicate (Suc n) 0) = replicate (Suc n) 0 @ [1]"
    by (simp only: rev.simps rev_replicate append_Nil)
  then show ?thesis unfolding first_appearance_def by (simp only: r) simp
qed

lemma first_appearance_one_zero:
  "first_appearance (slab_indices (stone_at 0 0 0) 0) = [1, 0]"
proof -
  have "slab_indices (stone_at 0 0 0) 0 = map (\<lambda>n. if n = 0 then 1 else 0) [0..<4096]"
    using slab_stone_at_0 [of 0 0 0] by simp
  also have "\<dots> = 1 # replicate 4095 0"
  proof (rule nth_equalityI)
    show "length (map (\<lambda>n. if n = 0 then 1 else 0 :: nat) [0..<4096]) = length (1 # replicate 4095 (0::nat))"
      by simp
    fix i assume "i < length (map (\<lambda>n. if n = 0 then 1 else 0 :: nat) [0..<4096])"
    then have "i < 4096" by simp
    then show "map (\<lambda>n. if n = 0 then 1 else 0 :: nat) [0..<4096] ! i = (1 # replicate 4095 0) ! i"
      by (cases i) simp_all
  qed
  finally have f: "slab_indices (stone_at 0 0 0) 0 = 1 # replicate 4095 0" .
  have n: "(4095::nat) = Suc 4094" by simp
  show ?thesis unfolding f n by (rule first_appearance_Cons_replicate)
qed

lemma encode_palette_order: "encode_palette [air, stone] \<noteq> encode_palette [stone, air]"
proof
  assume "encode_palette [air, stone] = encode_palette [stone, air]"
  then have "getitem (hd (encode_palette [air, stone])) ''Name'' =
             getitem (hd (encode_palette [stone, air])) ''Name''"
    by (rule arg_cong [where f = "\<lambda>xs. getitem (hd xs) ''Name''"])
  moreover have "getitem (hd (encode_palette [air, stone])) ''Name'' =
                 Inr (TAG_String ''minecraft:air'')"
    by (simp add: encode_palette_def encode_palette_entry_def air_def)
  moreover have "getitem (hd (encode_palette [stone, air])) ''Name'' =
                 Inr (TAG_String ''minecraft:stone'')"
    by (simp add: encode_palette_def encode_palette_entry_def stone_def)
  ultimately show False by simp
qed

subsection \<open>The worked example, decoded and encoded\<close>

lemma example_section_items:
  "getitem (example_section longs) ''Y'' = Inr (TAG_Byte 0)"
  "getitem (example_section longs) ''BlockLight'' = Inr (TAG_Byte_Array (replicate 2048 7))"
  "getitem (example_section longs) ''SkyLight'' = Inr (TAG_Byte_Array (replicate 2048 15))"
  by (simp_all add: example_section_def)

lemma decode_example_data:
  "decode example_externals example_data = Inr (example_chunk, [air, stone])"
  by (simp add: decode_def example_data_def example_level_def decode_blocks_example_volume
      example_section_items example_chunk_def)

lemma example_volume_stone_at: "example_volume = stone_at 1 0 0"
  by (simp add: example_volume_def stone_at_def)

lemma encode_blocks_example_volume:
  "encode_blocks example_externals example_volume [air, stone] = Inr [stored_section (one_at 256)]"
  using encode_blocks_stone_at [of 1 0 0] by (simp add: example_volume_stone_at)

lemma add_light_example:
  "add_light (misc example_chunk) (stored_section (one_at 256)) = Inr example_encoded_section"
  by (simp add: add_light_def stored_section_def light_for_def example_chunk_def
      example_encoded_section_def)

lemma encode_example_sections:
  "\<exists>data. encode example_externals example_chunk [air, stone] (''anvil'', 1631) = Inr data \<and>
     getpath data [''Level'', ''Sections''] = Inr (TAG_List [example_encoded_section]) \<and>
     getpath data [''Level'', ''Heightmaps'', ''MOTION_BLOCKING''] =
       Inr (TAG_Long_Array (replicate 36 5)) \<and>
     getpath data [''Level'', ''Heightmaps'', ''OCEAN_FLOOR''] =
       Inr (TAG_Long_Array (replicate 36 0))"
proof -
  have b: "blocks example_chunk = example_volume" by (simp add: example_chunk_def)
  have m: "map_result (add_light (misc example_chunk)) [stored_section (one_at 256)] =
           Inr [example_encoded_section]"
    by (simp add: add_light_example)
  have h: "encode_heightmaps (misc example_chunk) =
      Inr (TAG_Compound
        (fmupd ''WORLD_SURFACE_WG'' zero_heightmap
        (fmupd ''WORLD_SURFACE'' zero_heightmap
        (fmupd ''OCEAN_FLOOR_WG'' zero_heightmap
        (fmupd ''OCEAN_FLOOR'' zero_heightmap
        (fmupd ''MOTION_BLOCKING_NO_LEAVES'' zero_heightmap
        (fmupd ''MOTION_BLOCKING'' (TAG_Long_Array (replicate 36 5)) fmempty)))))))"
    by (simp add: encode_heightmaps_def example_chunk_def heightmap_names_def)
  have c: "convert_to_format example_externals bio n = Inr bio" for bio n
    by (simp add: example_externals_def)
  have f: "cx example_chunk = 2" "cz example_chunk = 3" "biomes example_chunk = replicate 256 1"
    by (simp_all add: example_chunk_def)
  have g: "misc_get (misc example_chunk) ''TileTicksA'' d = Inr (TAG_List [])"
    "misc_get (misc example_chunk) ''LastUpdateL'' d = Inr (TAG_Long 20)"
    "misc_get (misc example_chunk) ''InhabitedTimeL'' d = Inr (TAG_Long 10)"
    "misc_get (misc example_chunk) ''StatusSt'' d = Inr (TAG_String ''full'')"
    "misc_get (misc example_chunk) ''ToBeTickedA'' d = Inr (TAG_List [])"
    "misc_get (misc example_chunk) ''PostProcessingA'' d = Inr (TAG_List [])"
    "misc_get (misc example_chunk) ''StructuresC'' d = Inr (TAG_Compound fmempty)"
    "misc_get (misc example_chunk) ''LiquidTicksA'' d = Inr (TAG_List [])"
    "misc_get (misc example_chunk) ''LiquidsToBeTicked'' d = Inr (TAG_List [])" for d
    by (simp_all add: misc_get_def example_chunk_def)
  show ?thesis
    by (simp add: encode_def Let_def b encode_blocks_example_volume add_light_example h c f g
        zero_heightmap_def)
qed


lemma decode_misc_light_keys:
  assumes "decode ext data = Inr (chunk, pal)"
  shows "fmlookup (misc chunk) ''BlockLight2048'' = None"
    and "fmlookup (misc chunk) ''SkyLight2048'' = None"
    and "\<exists>d. fmlookup (misc chunk) ''BlockLight2048BA'' = Some (MiscDict d)"
    and "\<exists>d. fmlookup (misc chunk) ''SkyLight2048BA'' = Some (MiscDict d)"
  using assms unfolding decode_def by (auto split: sum.splits prod.splits)

lemma add_light_zero:
  assumes "fmlookup m ''BlockLight2048'' = None" "fmlookup m ''SkyLight2048'' = None"
    and "add_light m sec = Inr sec'"
  shows "getitem sec' ''BlockLight'' = Inr zero_light \<and> getitem sec' ''SkyLight'' = Inr zero_light"
proof (cases sec)
  case (TAG_Compound c)
  with assms show ?thesis
    by (auto simp: add_light_def light_for_def split: sum.splits)
qed (use assms in \<open>auto simp: add_light_def\<close>)

lemma decoded_light_never_reattached:
  assumes "decode ext data = Inr (chunk, pal)"
    and "encode ext chunk pal' version = Inr out"
    and "getpath out [''Level'', ''Sections''] = Inr (TAG_List secs)" and "sec \<in> set secs"
  shows "getitem sec ''BlockLight'' = Inr zero_light \<and> getitem sec ''SkyLight'' = Inr zero_light"
proof -
  from assms(2,3) obtain raw where
    r: "map_result (add_light (misc chunk)) raw = Inr secs"
    unfolding encode_def Let_def by (auto split: sum.splits)
  from assms(4) obtain i where i: "i < length secs" "secs ! i = sec"
    by (auto simp: in_set_conv_nth)
  from map_result_Inr [OF r] i have "add_light (misc chunk) (raw ! i) = Inr sec" by auto
  with decode_misc_light_keys(1,2) [OF assms(1)] show ?thesis by (rule add_light_zero)
qed

lemma fold_fmupd_other:
  "name \<notin> set names \<Longrightarrow>
   fmlookup (fold (\<lambda>n acc. fmupd n (f n) acc) names acc0) name = fmlookup acc0 name"
  by (induction names arbitrary: acc0) auto

lemma fold_fmupd_lookup:
  "name \<in> set names \<Longrightarrow>
   fmlookup (fold (\<lambda>n acc. fmupd n (f n) acc) names acc0) name = Some (f name)"
proof (induction names arbitrary: acc0)
  case Nil
  then show ?case by simp
next
  case (Cons n names)
  show ?case
  proof (cases "name \<in> set names")
    case True
    then show ?thesis using Cons.IH by simp
  next
    case False
    with Cons.prems have "name = n" by simp
    with False show ?thesis by (simp add: fold_fmupd_other)
  qed
qed

lemma encode_heightmaps_entry:
  assumes "encode_heightmaps m = Inr hm" "name \<in> set heightmap_names"
  shows "getitem hm name =
         Inr (case fmlookup m ''HeightmapsC'' of
                Some (MiscTag (TAG_Compound h)) \<Rightarrow>
                  (case fmlookup h name of
                     Some t \<Rightarrow> t
                   | None \<Rightarrow> TAG_Long_Array (replicate 36 0))
              | _ \<Rightarrow> TAG_Long_Array (replicate 36 0))"
proof -
  let ?zero = "fold (\<lambda>n acc. fmupd n zero_heightmap acc) heightmap_names fmempty"
  have z: "fmlookup ?zero name = Some (TAG_Long_Array (replicate 36 0))"
    using fold_fmupd_lookup [OF assms(2), of "\<lambda>n. zero_heightmap" fmempty]
    by (simp add: zero_heightmap_def)
  show ?thesis
  proof (cases "fmlookup m ''HeightmapsC''")
    case None
    with assms(1) have "hm = TAG_Compound ?zero" by (simp add: encode_heightmaps_def)
    with None z show ?thesis by simp
  next
    case (Some v)
    show ?thesis
    proof (cases v)
      case (MiscDict d)
      with Some assms(1) have "hm = TAG_Compound ?zero" by (simp add: encode_heightmaps_def)
      with Some MiscDict z show ?thesis by simp
    next
      case (MiscTag t)
      show ?thesis
      proof (cases t)
        case (TAG_Compound h)
        let ?f = "\<lambda>n. case fmlookup h n of None \<Rightarrow> zero_heightmap | Some t \<Rightarrow> t"
        from Some MiscTag TAG_Compound assms(1)
        have "hm = nbt.TAG_Compound (fold (\<lambda>n acc. fmupd n (?f n) acc) heightmap_names fmempty)"
          by (simp add: encode_heightmaps_def)
        moreover have "fmlookup (fold (\<lambda>n acc. fmupd n (?f n) acc) heightmap_names fmempty) name
            = Some (?f name)"
          using assms(2) by (rule fold_fmupd_lookup)
        ultimately show ?thesis using Some MiscTag TAG_Compound
          by (simp add: zero_heightmap_def split: option.splits)
      qed (use Some MiscTag assms(1) in \<open>simp_all add: encode_heightmaps_def\<close>)
    qed
  qed
qed

lemma encoded_path_example:
  "encoded_path example_externals example_chunk [air, stone] (''anvil'', 1631)
     [''Level'', ''Sections''] = Inr (TAG_List [example_encoded_section])"
  "encoded_path example_externals example_chunk [air, stone] (''anvil'', 1631)
     [''Level'', ''Heightmaps'', ''MOTION_BLOCKING''] = Inr (TAG_Long_Array (replicate 36 5))"
  "encoded_path example_externals example_chunk [air, stone] (''anvil'', 1631)
     [''Level'', ''Heightmaps'', ''OCEAN_FLOOR''] = Inr (TAG_Long_Array (replicate 36 0))"
  using encode_example_sections by (auto simp: encoded_path_def)

subsection \<open>Encoding and decoding again\<close>

lemma decode_sections_palette:
  "decode_sections ext secs bs pal = Inr (bs', pal') \<Longrightarrow>
   set pal' = set pal \<union> (\<Union>sec \<in> set secs. palette_blocks ext sec)"
proof (induction secs arbitrary: bs pal)
  case Nil
  then show ?case by simp
next
  case (Cons s secs)
  show ?case
  proof (cases "contains s ''Palette'' = Inr True")
    case False
    with Cons.prems have "decode_sections ext secs bs pal = Inr (bs', pal')"
      by (auto split: sum.splits bool.splits)
    from Cons.IH [OF this] False show ?thesis by (simp add: palette_blocks_def)
  next
    case True
    with Cons.prems obtain bs1 ptag loc where
      p: "getitem s ''Palette'' = Inr ptag" "decode_palette ext ptag = Inr loc" and
      d: "decode_sections ext secs bs1 (pal @ loc) = Inr (bs', pal')"
      by (auto split: sum.splits)
    from p True have "palette_blocks ext s = set loc" by (simp add: palette_blocks_def)
    with Cons.IH [OF d] show ?thesis by auto
  qed
qed

lemma split_colon_join:
  assumes "CHR '':'' \<notin> set ns"
  shows "split_colon (ns @ '':'' @ bn) = Some (ns, bn)"
proof -
  have "takeWhile (\<lambda>c. c \<noteq> CHR '':'') (ns @ CHR '':'' # bn) = ns \<and>
        dropWhile (\<lambda>c. c \<noteq> CHR '':'') (ns @ CHR '':'' # bn) = CHR '':'' # bn"
    using assms by (induction ns) auto
  then show ?thesis by (simp add: split_colon_def)
qed

lemma decode_encode_palette_entry:
  assumes "CHR '':'' \<notin> set (namespace b)" and "\<forall>s. str_value ext (TAG_String s) = s"
  shows "decode_palette_entry ext (encode_palette_entry b) = Inr b"
proof -
  have "fmmap (str_value ext) (fmmap TAG_String (properties b)) = properties b"
    using assms(2) by (simp add: fmap.map_comp o_def fmap.map_ident)
  then show ?thesis
    using split_colon_join [OF assms(1), of "base_name b"]
    by (simp add: decode_palette_entry_def encode_palette_entry_def)
qed

lemma decode_encode_palette:
  assumes "\<forall>b \<in> set used. CHR '':'' \<notin> set (namespace b)"
    and "\<forall>s. str_value ext (TAG_String s) = s"
  shows "decode_palette ext (TAG_List (encode_palette used)) = Inr used"
proof -
  have "map_result (decode_palette_entry ext) (map encode_palette_entry used) = Inr used"
    using assms(1)
  proof (induction used)
    case Nil
    then show ?case by simp
  next
    case (Cons b used)
    then show ?case using decode_encode_palette_entry [of b ext] assms(2) by simp
  qed
  then show ?thesis by (simp add: decode_palette_def encode_palette_def)
qed

lemma decode_palette_entry_namespace:
  "decode_palette_entry ext entry = Inr b \<Longrightarrow> CHR '':'' \<notin> set (namespace b)"
proof -
  have t: "CHR '':'' \<notin> set (takeWhile (\<lambda>c. c \<noteq> CHR '':'') s)" for s
    using set_takeWhileD by fastforce
  assume "decode_palette_entry ext entry = Inr b"
  then show ?thesis
    using t
    by (auto simp: decode_palette_entry_def split_colon_def
        split: sum.splits nbt.splits option.splits if_splits)
qed

lemma map_result_set:
  "map_result f xs = Inr ys \<Longrightarrow> y \<in> set ys \<Longrightarrow> \<exists>x \<in> set xs. f x = Inr y"
  by (induction xs arbitrary: ys) (auto split: sum.splits)

lemma palette_blocks_namespace:
  assumes "b \<in> palette_blocks ext sec"
  shows "CHR '':'' \<notin> set (namespace b)"
proof -
  from assms obtain ptag used where
    "decode_palette ext ptag = Inr used" "b \<in> set used"
    by (auto simp: palette_blocks_def split: if_splits sum.splits)
  then obtain entries where "map_result (decode_palette_entry ext) entries = Inr used"
    by (auto simp: decode_palette_def split: sum.splits)
  from map_result_set [OF this \<open>b \<in> set used\<close>] show ?thesis
    using decode_palette_entry_namespace by blast
qed

lemma decode_blocks_palette:
  assumes "decode_blocks ext secs = Inr (bs, pal)"
  shows "set pal = insert air (\<Union>sec \<in> set secs. palette_blocks ext sec)"
proof -
  from assms obtain storage pal0 ix where
    d: "decode_sections ext secs (zeros3 256 16 16) [air] = Inr (storage, pal0)" and
    u: "numpy_unique (block_key ext) pal0 = (pal, ix)"
    by (auto simp: decode_blocks_def Let_def split: if_splits sum.splits prod.splits)
  from decode_sections_palette [OF d] numpy_unique_set [OF u] show ?thesis by simp
qed

lemma decode_blocks_namespace:
  assumes "decode_blocks ext secs = Inr (bs, pal)" "b \<in> set pal"
  shows "CHR '':'' \<notin> set (namespace b)"
proof -
  from decode_blocks_palette [OF assms(1)] assms(2)
  have "b = air \<or> (\<exists>sec \<in> set secs. b \<in> palette_blocks ext sec)" by auto
  then show ?thesis using palette_blocks_namespace by (auto simp: air_def)
qed


lemma getitem_contains: "getitem t k = Inr v \<Longrightarrow> contains t k = Inr True"
  by (cases t) (auto split: option.splits)

lemma encode_blocks_sections_iff:
  assumes "encode_blocks ext bs pal = Inr secs"
  shows "sec \<in> set secs \<longleftrightarrow> (\<exists>y < 16. encode_section ext bs pal y = Inr (Some sec))"
proof
  assume "sec \<in> set secs"
  with assms show "\<exists>y < 16. encode_section ext bs pal y = Inr (Some sec)"
    by (rule encode_blocks_sections)
next
  assume "\<exists>y < 16. encode_section ext bs pal y = Inr (Some sec)"
  then obtain y where y: "y < 16" "encode_section ext bs pal y = Inr (Some sec)" by blast
  from assms obtain rs where
    r: "map_result (encode_section ext bs pal) [0..<16] = Inr rs" and
    s: "secs = concat (map (\<lambda>s. case s of None \<Rightarrow> [] | Some sec \<Rightarrow> [sec]) rs)"
    by (auto simp: encode_blocks_def split: sum.splits)
  from map_result_Inr [OF r] y have "length rs = 16" "rs ! y = Some sec" by auto
  then have "Some sec \<in> set rs" using y(1) by (metis nth_mem)
  then show "sec \<in> set secs" unfolding s by force
qed

lemma palette_blocks_encoded:
  assumes "encode_section ext V P y = Inr (Some sec)"
    and "\<forall>b \<in> set P. CHR '':'' \<notin> set (namespace b)"
    and "\<forall>s. str_value ext (TAG_String s) = s"
  shows "palette_blocks ext sec = (\<lambda>i. P ! i) ` set (slab_indices V y)"
proof -
  let ?used = "map (\<lambda>i. P ! i) (sorted_list_of_set (set (slab_indices V y)))"
  from encode_section_Some(2,3) [OF assms(1)] have
    g: "getitem sec ''Palette'' = Inr (TAG_List (encode_palette ?used))" and
    v: "\<forall>i \<in> set (slab_indices V y). i < length P"
    by blast+
  have "\<forall>b \<in> set ?used. CHR '':'' \<notin> set (namespace b)" using v assms(2) by auto
  then have "decode_palette ext (TAG_List (encode_palette ?used)) = Inr ?used"
    using assms(3) by (rule decode_encode_palette)
  with g getitem_contains [OF g] have "palette_blocks ext sec = set ?used"
    by (simp add: palette_blocks_def)
  then show ?thesis by simp
qed

lemma table3_zeros3: "table3 n0 n1 n2 (\<lambda>i j k. 0) = zeros3 n0 n1 n2"
  by (simp add: table3_def zeros3_def map_replicate_const)

lemma decode_blocks_all_air:
  "decode_blocks example_externals [example_section (replicate 4096 0)] =
   Inr (zeros3 16 256 16, [air, stone])"
proof -
  have "table3 16 256 16 (\<lambda>x y z. if y < 16 then nat (replicate 4096 0 ! (256 * y + 16 * z + x)) else 0)
        = table3 16 256 16 (\<lambda>x y z. 0)"
    by (rule table3_cong) simp
  then show ?thesis
    using decode_blocks_example [of "replicate 4096 0"]
    by (simp add: table3_zeros3 list_all_length)
qed

lemma encode_blocks_all_air:
  "encode_blocks example_externals (zeros3 16 256 16) [air, stone] = Inr []"
proof -
  have s: "set (slab_indices (zeros3 16 256 16) y) = {0}" if "y < 16" for y
  proof -
    have "slab_indices (table3 16 256 16 (\<lambda>i j k. 0)) y = map (\<lambda>n. 0) [0..<4096]"
      using that by (rule slab_indices_table3)
    also have "\<dots> = replicate 4096 0" by (simp only: map_replicate_const length_upt diff_zero)
    finally show ?thesis by (simp add: table3_zeros3)
  qed
  have "map_result (encode_section example_externals (zeros3 16 256 16) [air, stone]) [0..<16] =
        Inr (map (\<lambda>y. None) [0..<16])"
    using s by (intro map_result_all_Inr encode_section_zero) simp
  then show ?thesis unfolding encode_blocks_def by (simp add: o_def)
qed

lemma decode_blocks_stored_256:
  "decode_blocks example_externals [stored_section (one_at 256)] = Inr (stone_at 0 1 0, [air, stone])"
  using decode_blocks_stone_at [of 0 1 0 "stored_section (one_at 256)"]
  by (simp add: stored_section_slab0)

lemma roundtrip_stone_at:
  assumes "a < 16" "b < 16" "c < 16"
  shows "encode_blocks example_externals (stone_at a b c) [air, stone] =
           Inr [stored_section (one_at (256 * a + 16 * b + c))] \<and>
         decode_blocks example_externals [stored_section (one_at (256 * a + 16 * b + c))] =
           Inr (stone_at c a b, [air, stone])"
  using encode_blocks_stone_at [OF assms]
    decode_blocks_stone_at [OF assms(3,1,2) stored_section_slab0]
  by simp

subsection \<open>The decoded volume and palette\<close>

text \<open>
  C5. Whenever \<^verbatim>\<open>_decode_blocks\<close> returns, every index in the returned volume is a valid
  index into the returned palette. The returned palette holds no descriptor twice
  (descriptors are compared by namespace, base name and properties) provided the ordering
  of \<^verbatim>\<open>Block\<close> objects, which is declared outside the sources at hand, gives different keys
  to the different descriptors of the chunk's running palette: \<^verbatim>\<open>numpy.unique\<close> drops
  an element only when it equals its predecessor in the sorted array, so it removes every
  duplicate only when the sort brings equal descriptors together.
\<close>

theorem decode_blocks_valid:
  assumes "decode_blocks ext secs = Inr (bs, pal)"
  shows "(\<forall>p \<in> set bs. \<forall>r \<in> set p. \<forall>i \<in> set r. i < length pal) \<and>
         (\<forall>storage pal0.
            decode_sections ext secs (zeros3 256 16 16) [air] = Inr (storage, pal0) \<longrightarrow>
            inj_on (block_key ext) (set pal0) \<longrightarrow> distinct pal)"
proof -
  from assms obtain storage pal0 ix where
    d: "decode_sections ext secs (zeros3 256 16 16) [air] = Inr (storage, pal0)" and
    u: "numpy_unique (block_key ext) pal0 = (pal, ix)" and
    f: "fancy_index3 ix (swapaxes_0_2 (swapaxes_0_1 storage)) = Inr bs"
    by (auto simp: decode_blocks_def Let_def split: if_splits sum.splits prod.splits)
  have "i < length pal" if "p \<in> set bs" "r \<in> set p" "i \<in> set r" for p r i
  proof -
    from fancy_index3_Inr [OF f that] obtain k where "k < length ix" "i = ix ! k" by blast
    with u show ?thesis by (simp add: numpy_unique_inverse numpy_unique_length)
  qed
  moreover have "distinct pal" if "inj_on (block_key ext) (set pal0)"
    using u that by (rule numpy_unique_distinct)
  ultimately show ?thesis using d by auto
qed

theorem decode_blocks_valid_witness:
  "decode_blocks example_externals [example_section example_longs] =
     Inr (example_volume, [air, stone]) \<and>
   decode_sections example_externals [example_section example_longs] (zeros3 256 16 16) [air] =
     Inr (map (map (map (\<lambda>v. v + 1)))
            (table3 16 16 16 (\<lambda>i j k. map nat example_longs ! (256 * i + 16 * j + k)))
          @ replicate 240 (replicate 16 (replicate 16 0)), [air, air, stone]) \<and>
   inj_on (block_key example_externals) (set [air, air, stone]) \<and>
   list_all (list_all (list_all (\<lambda>i. i < length [air, stone]))) example_volume \<and>
   distinct [air, stone]"
proof -
  have d: "decode_sections example_externals [example_section example_longs] (zeros3 256 16 16) [air] =
     Inr (map (map (map (\<lambda>v. v + 1)))
            (table3 16 16 16 (\<lambda>i j k. map nat example_longs ! (256 * i + 16 * j + k)))
          @ replicate 240 (replicate 16 (replicate 16 0)), [air, air, stone])"
    using example_longs_ok(1) by (rule decode_sections_example)
  have i: "inj_on (block_key example_externals) (set [air, air, stone])"
    by (simp add: example_externals_def air_def stone_def)
  from decode_blocks_valid [OF decode_blocks_example_volume] d i
  have "(\<forall>p \<in> set example_volume. \<forall>r \<in> set p. \<forall>i \<in> set r. i < length [air, stone]) \<and>
        distinct [air, stone]"
    by blast
  with d i decode_blocks_example_volume show ?thesis by (simp add: list_all_iff)
qed

subsection \<open>The order of the axes\<close>

text \<open>
  C9, as amended. Whenever \<^verbatim>\<open>_decode_blocks\<close> returns, the storage-ordered volume that
  the loop over the sections has stitched has shape (256, 16, 16), the returned volume has
  shape (16, 256, 16), and the voxel at \<open>(x, y, z)\<close> of the returned volume is the
  storage-order voxel at \<open>(y, z, x)\<close>, mapped through the deduplication of the palette: the
  axes of the storage order are height, then z, then x.
\<close>

theorem decode_blocks_axes:
  assumes "decode_blocks ext secs = Inr (bs, pal)"
  shows "\<exists>storage pal0.
           decode_sections ext secs (zeros3 256 16 16) [air] = Inr (storage, pal0) \<and>
           has_shape storage 256 16 16 \<and> has_shape bs 16 256 16 \<and>
           (\<forall>x < 16. \<forall>y < 256. \<forall>z < 16.
              bs ! x ! y ! z = snd (numpy_unique (block_key ext) pal0) ! (storage ! y ! z ! x))"
proof -
  from assms obtain storage pal0 ix where
    d: "decode_sections ext secs (zeros3 256 16 16) [air] = Inr (storage, pal0)" and
    u: "numpy_unique (block_key ext) pal0 = (pal, ix)" and
    f: "fancy_index3 ix (swapaxes_0_2 (swapaxes_0_1 storage)) = Inr bs"
    by (auto simp: decode_blocks_def Let_def split: if_splits sum.splits prod.splits)
  have s: "has_shape storage 256 16 16"
    using d has_shape_zeros3 by (rule has_shape_decode_sections)
  then have s': "has_shape (swapaxes_0_2 (swapaxes_0_1 storage)) 16 256 16"
    by (rule reorder_axes_shape) simp_all
  have sb: "has_shape bs 16 256 16"
    using f s' by (auto simp: fancy_index3_def has_shape_iff split: if_splits)
  have "bs ! x ! y ! z = ix ! (storage ! y ! z ! x)" if "x < 16" "y < 256" "z < 16" for x y z
  proof -
    have "bs ! x ! y ! z = ix ! (swapaxes_0_2 (swapaxes_0_1 storage) ! x ! y ! z)"
      using fancy_index3_nth [OF f, of x y z] that has_shape_nth(1) [OF s', of x]
        has_shape_nth(2) [OF s', of x y] s' by (simp add: has_shape_iff)
    then show ?thesis using reorder_axes_nth [OF s, of x y z] that by simp
  qed
  with d s sb u show ?thesis by simp
qed

theorem decode_blocks_axes_witness:
  "decode_blocks example_externals [example_section example_longs] =
     Inr (example_volume, [air, stone]) \<and>
   (\<exists>storage pal0.
      decode_sections example_externals [example_section example_longs] (zeros3 256 16 16) [air] =
        Inr (storage, pal0) \<and>
      has_shape storage 256 16 16 \<and> has_shape example_volume 16 256 16 \<and>
      example_volume ! 1 ! 0 ! 0 =
        snd (numpy_unique (block_key example_externals) pal0) ! (storage ! 0 ! 0 ! 1))"
proof -
  from decode_blocks_axes [OF decode_blocks_example_volume] obtain storage pal0 where
    h: "decode_sections example_externals [example_section example_longs] (zeros3 256 16 16) [air] =
          Inr (storage, pal0)"
       "has_shape storage 256 16 16" "has_shape example_volume 16 256 16"
       "\<forall>x<16. \<forall>y<256. \<forall>z<16. example_volume ! x ! y ! z =
          snd (numpy_unique (block_key example_externals) pal0) ! (storage ! y ! z ! x)"
    by blast
  from h(4) have "example_volume ! 1 ! 0 ! 0 =
      snd (numpy_unique (block_key example_externals) pal0) ! (storage ! 0 ! 0 ! 1)"
    by simp
  with h(1-3) decode_blocks_example_volume show ?thesis by blast
qed

text \<open>
  C9 as stated (the voxel at \<open>(x, y, z)\<close> is the storage-order voxel at \<open>(y, x, z)\<close>) fails: in
  the worked example the stone stored at \<open>[0][0][1]\<close> is returned at \<open>(1, 0, 0)\<close>, where the
  claim puts the air stored at \<open>[0][1][0]\<close>.
\<close>

theorem axes_height_x_z_counterexample:
  "\<not> (\<forall>ext secs bs pal storage pal0 x y z.
        decode_blocks (ext :: nat externals) secs = Inr (bs, pal) \<longrightarrow>
        decode_sections ext secs (zeros3 256 16 16) [air] = Inr (storage, pal0) \<longrightarrow>
        x < 16 \<longrightarrow> y < 256 \<longrightarrow> z < 16 \<longrightarrow>
        pal ! (bs ! x ! y ! z) = pal0 ! (storage ! y ! x ! z))"
proof
  assume a: "\<forall>ext secs bs pal storage pal0 x y z.
        decode_blocks (ext :: nat externals) secs = Inr (bs, pal) \<longrightarrow>
        decode_sections ext secs (zeros3 256 16 16) [air] = Inr (storage, pal0) \<longrightarrow>
        x < 16 \<longrightarrow> y < 256 \<longrightarrow> z < 16 \<longrightarrow>
        pal ! (bs ! x ! y ! z) = pal0 ! (storage ! y ! x ! z)"
  let ?storage = "map (map (map (\<lambda>v. v + 1)))
                (table3 16 16 16 (\<lambda>i j k. map nat example_longs ! (256 * i + 16 * j + k)))
              @ replicate 240 (replicate 16 (replicate 16 0))"
  have d: "decode_sections example_externals [example_section example_longs] (zeros3 256 16 16) [air] =
      Inr (?storage, [air, air, stone])"
    using example_longs_ok(1) by (rule decode_sections_example)
  have "[air, stone] ! (example_volume ! 1 ! 0 ! 0) = [air, air, stone] ! (?storage ! 0 ! 1 ! 0)"
    using a [rule_format, OF decode_blocks_example_volume d, of 1 0 0] by simp
  moreover have "example_volume ! 1 ! 0 ! 0 = 1"
    by (simp add: example_volume_def table3_nth)
  moreover have "?storage ! 0 ! 1 ! 0 = 1"
    using table3_map_append_nth [of 0 16 1 16 0 16 "\<lambda>v. v + 1"
        "\<lambda>i j k. map nat example_longs ! (256 * i + 16 * j + k)"
        "replicate 240 (replicate 16 (replicate 16 0))"]
    by (simp add: example_longs_ok example_longs_nth)
  ultimately show False by (simp add: air_def stone_def)
qed

subsection \<open>A section with only one of palette and packed indices\<close>

lemma decode_blocks_without_palette:
  assumes "contains s ''Palette'' = Inr False"
  shows "decode_blocks ext [s] = Inr (zeros3 16 256 16, [air])"
  using assms
  by (simp add: decode_blocks_def reorder_axes_zeros3 numpy_unique_single fancy_index3_zeros3)
     (simp add: zeros3_def)

lemma decode_sections_missing_blockstates:
  assumes "s \<in> set secs" "contains s ''Palette'' = Inr True"
    "getitem s ''BlockStates'' = Inl (KeyError ''BlockStates'')"
  shows "\<exists>e. decode_sections ext secs bs pal = Inl e"
  using assms(1)
proof (induction secs arbitrary: bs pal)
  case Nil
  then show ?case by simp
next
  case (Cons t secs)
  show ?case
  proof (cases "t = s")
    case True
    then show ?thesis using assms(2,3) by (simp split: sum.splits)
  next
    case False
    with Cons.prems have "s \<in> set secs" by simp
    from Cons.IH [OF this] show ?thesis by (simp split: sum.splits bool.splits)
  qed
qed

lemma decode_sections_skip:
  "list_all (\<lambda>t. contains t ''Palette'' = Inr False) skipped \<Longrightarrow>
   decode_sections ext (skipped @ rest) bs pal = decode_sections ext rest bs pal"
  by (induction skipped) simp_all

text \<open>
  C2, as amended. A section with no \<^verbatim>\<open>Palette\<close> is skipped whether or not it has
  \<^verbatim>\<open>BlockStates\<close>, and a chunk of such a section alone decodes to an all-air volume. A
  section with a \<^verbatim>\<open>Palette\<close> and no \<^verbatim>\<open>BlockStates\<close> makes \<^verbatim>\<open>_decode_blocks\<close> fail; the
  failure is the KeyError of the lookup of \<^verbatim>\<open>BlockStates\<close> when the sections before it have
  no palette and its \<^verbatim>\<open>Y\<close> is a byte tag. There is no error of its own for a malformed
  section.
\<close>

theorem palette_blockstates_mismatch:
  "(contains s ''Palette'' = Inr False \<longrightarrow>
      decode_sections ext (s # rest) bs pal = decode_sections ext rest bs pal \<and>
      decode_blocks ext [s] = Inr (zeros3 16 256 16, [air])) \<and>
   (s \<in> set secs \<and> contains s ''Palette'' = Inr True \<and>
    getitem s ''BlockStates'' = Inl (KeyError ''BlockStates'') \<longrightarrow>
      (\<exists>e. decode_blocks ext secs = Inl e)) \<and>
   (list_all (\<lambda>t. contains t ''Palette'' = Inr False) skipped \<and>
    contains s ''Palette'' = Inr True \<and> getitem s ''Y'' = Inr (TAG_Byte y) \<and>
    getitem s ''BlockStates'' = Inl (KeyError ''BlockStates'') \<longrightarrow>
      decode_blocks ext (skipped @ s # rest) = Inl (KeyError ''BlockStates''))"
proof (intro conjI impI)
  assume "contains s ''Palette'' = Inr False"
  then show "decode_sections ext (s # rest) bs pal = decode_sections ext rest bs pal"
    and "decode_blocks ext [s] = Inr (zeros3 16 256 16, [air])"
    by (simp_all add: decode_blocks_without_palette)
next
  assume a: "s \<in> set secs \<and> contains s ''Palette'' = Inr True \<and>
    getitem s ''BlockStates'' = Inl (KeyError ''BlockStates'')"
  then obtain e where "decode_sections ext secs (zeros3 256 16 16) [air] = Inl e"
    using decode_sections_missing_blockstates by blast
  then show "\<exists>e. decode_blocks ext secs = Inl e"
    by (simp add: decode_blocks_def)
next
  assume a: "list_all (\<lambda>t. contains t ''Palette'' = Inr False) skipped \<and>
    contains s ''Palette'' = Inr True \<and> getitem s ''Y'' = Inr (TAG_Byte y) \<and>
    getitem s ''BlockStates'' = Inl (KeyError ''BlockStates'')"
  then have "decode_sections ext (skipped @ s # rest) (zeros3 256 16 16) [air] =
             Inl (KeyError ''BlockStates'')"
    by (simp add: decode_sections_skip)
  then show "decode_blocks ext (skipped @ s # rest) = Inl (KeyError ''BlockStates'')"
    by (simp add: decode_blocks_def)
qed

theorem palette_blockstates_mismatch_witness:
  "contains section_without_palette ''Palette'' = Inr False \<and>
   decode_sections example_externals [section_without_palette, example_section example_longs]
      (zeros3 256 16 16) [air] =
   decode_sections example_externals [example_section example_longs] (zeros3 256 16 16) [air] \<and>
   section_without_blockstates \<in> set [section_without_palette, section_without_blockstates] \<and>
   contains section_without_blockstates ''Palette'' = Inr True \<and>
   getitem section_without_blockstates ''Y'' = Inr (TAG_Byte 0) \<and>
   getitem section_without_blockstates ''BlockStates'' = Inl (KeyError ''BlockStates'') \<and>
   (\<exists>e. decode_blocks example_externals [section_without_palette, section_without_blockstates]
      = Inl e) \<and>
   decode_blocks example_externals
     ([section_without_palette] @ section_without_blockstates # [example_section example_longs])
     = Inl (KeyError ''BlockStates'')"
proof -
  have p: "contains section_without_palette ''Palette'' = Inr False"
    by (simp add: section_without_palette_def)
  have q: "contains section_without_blockstates ''Palette'' = Inr True"
    "getitem section_without_blockstates ''Y'' = Inr (TAG_Byte 0)"
    "getitem section_without_blockstates ''BlockStates'' = Inl (KeyError ''BlockStates'')"
    by (simp_all add: section_without_blockstates_def)
  note t = palette_blockstates_mismatch [where ext = example_externals]
  from t [where s = section_without_palette and rest = "[example_section example_longs]"
      and bs = "zeros3 256 16 16" and pal = "[air]"] p
  have 1: "decode_sections example_externals [section_without_palette, example_section example_longs]
      (zeros3 256 16 16) [air] =
   decode_sections example_externals [example_section example_longs] (zeros3 256 16 16) [air]"
    by blast
  from t [where s = section_without_blockstates
      and secs = "[section_without_palette, section_without_blockstates]"] q
  have 2: "\<exists>e. decode_blocks example_externals [section_without_palette, section_without_blockstates]
      = Inl e"
    by simp
  from t [where s = section_without_blockstates and skipped = "[section_without_palette]"
      and y = 0 and rest = "[example_section example_longs]"] p q
  have 3: "decode_blocks example_externals
     ([section_without_palette] @ section_without_blockstates # [example_section example_longs])
     = Inl (KeyError ''BlockStates'')"
    by simp
  from p q 1 2 3 show ?thesis by simp
qed

text \<open>
  C2 as stated fails: the section with \<^verbatim>\<open>BlockStates\<close> and no \<^verbatim>\<open>Palette\<close> decodes without an
  error, to the all-air volume.
\<close>

theorem blockstates_without_palette_counterexample:
  "getitem section_without_palette ''BlockStates'' = Inr (TAG_Long_Array example_longs) \<and>
   contains section_without_palette ''Palette'' = Inr False \<and>
   decode_blocks example_externals [section_without_palette] = Inr (zeros3 16 256 16, [air])"
proof -
  have "contains section_without_palette ''Palette'' = Inr False"
    and "getitem section_without_palette ''BlockStates'' = Inr (TAG_Long_Array example_longs)"
    by (simp_all add: section_without_palette_def)
  then show ?thesis by (simp add: decode_blocks_without_palette)
qed

subsection \<open>Auxiliary fields that are absent\<close>

lemma getitem_error: "getitem t k = Inl e \<Longrightarrow> e = KeyError k \<or> e = TypeError"
  by (cases t) (auto split: option.splits)

lemma int_value_error: "int_value t = Inl e \<Longrightarrow> e = TypeError"
  by (cases t) auto

lemma list_value_error: "list_value t = Inl e \<Longrightarrow> e = TypeError"
  by (cases t) auto

lemma int_array_value_error: "int_array_value t = Inl e \<Longrightarrow> e = TypeError"
  by (cases t) auto

lemma light_dict_error:
  "light_dict name secs acc = Inl e \<Longrightarrow> is_KeyError e \<or> e = TypeError"
  by (induction secs arbitrary: acc)
     (auto split: sum.splits dest: getitem_error int_value_error)

lemma light_dict_present:
  "light_dict name secs acc = Inr d \<Longrightarrow> s \<in> set secs \<Longrightarrow> \<exists>v. getitem s name = Inr v"
  by (induction secs arbitrary: acc) (auto split: sum.splits)

lemma decode_error:
  assumes "decode ext data = Inl e" "getitem data ''Level'' = Inr level"
  shows "is_KeyError e \<or> e = TypeError \<or>
         (\<exists>secs. getitem level ''Sections'' = Inr (TAG_List secs) \<and> decode_blocks ext secs = Inl e)"
proof -
  have l: "list_value t = Inr xs \<Longrightarrow> t = TAG_List xs" for t xs by (cases t) auto
  show ?thesis
    using assms unfolding decode_def
    by (auto split: sum.splits prod.splits
        dest: getitem_error int_value_error list_value_error int_array_value_error
              light_dict_error l)
qed

lemma decode_present:
  assumes "decode ext data = Inr r" "getitem data ''Level'' = Inr level"
  shows "(\<forall>name \<in> set aux_field_names. \<exists>v. getitem level name = Inr v) \<and>
         (\<exists>secs. getitem level ''Sections'' = Inr (TAG_List secs) \<and>
            (\<forall>s \<in> set secs. (\<exists>v. getitem s ''BlockLight'' = Inr v) \<and>
                              (\<exists>v. getitem s ''SkyLight'' = Inr v)))"
proof -
  have l: "list_value t = Inr xs \<Longrightarrow> t = TAG_List xs" for t xs by (cases t) auto
  show ?thesis
    using assms unfolding decode_def aux_field_names_def
    by (auto split: sum.splits prod.splits dest: l light_dict_present)
qed

text \<open>
  C10, as amended. When the record has a \<^verbatim>\<open>Level\<close> compound in which one of the auxiliary
  fields (TileTicks, LastUpdate, Biomes, InhabitedTime, Status, Heightmaps, ToBeTicked,
  PostProcessing, Structures, LiquidTicks, LiquidsToBeTicked, Entities) is absent, or a
  section of which has no BlockLight or no SkyLight, \<^verbatim>\<open>decode\<close> fails and substitutes no
  default. The failure is a KeyError, unless the decoding of the blocks, which runs first,
  fails with an error of its own, or a field has a tag of the wrong kind.
\<close>

theorem decode_missing_aux_field:
  assumes "getitem data ''Level'' = Inr level"
    and "(\<exists>name \<in> set aux_field_names. getitem level name = Inl (KeyError name)) \<or>
         (\<exists>secs s. getitem level ''Sections'' = Inr (TAG_List secs) \<and> s \<in> set secs \<and>
            (getitem s ''BlockLight'' = Inl (KeyError ''BlockLight'') \<or>
             getitem s ''SkyLight'' = Inl (KeyError ''SkyLight'')))"
  shows "\<exists>e. decode ext data = Inl e \<and>
           (is_KeyError e \<or> e = TypeError \<or>
            (\<exists>secs. getitem level ''Sections'' = Inr (TAG_List secs) \<and>
                    decode_blocks ext secs = Inl e))"
proof (cases "decode ext data")
  case (Inl e)
  with decode_error [OF Inl assms(1)] show ?thesis by simp
next
  case (Inr r)
  from decode_present [OF Inr assms(1)] assms(2) have False by fastforce
  then show ?thesis ..
qed

theorem decode_missing_aux_field_witness:
  "getitem (TAG_Compound (fmupd ''Level'' (TAG_Compound (fmdrop ''Status'' example_level)) fmempty))
     ''Level'' = Inr (TAG_Compound (fmdrop ''Status'' example_level)) \<and>
   ''Status'' \<in> set aux_field_names \<and>
   getitem (TAG_Compound (fmdrop ''Status'' example_level)) ''Status'' = Inl (KeyError ''Status'') \<and>
   decode example_externals
     (TAG_Compound (fmupd ''Level'' (TAG_Compound (fmdrop ''Status'' example_level)) fmempty))
     = Inl (KeyError ''Status'') \<and>
   is_KeyError (KeyError ''Status'')"
proof -
  let ?level = "TAG_Compound (fmdrop ''Status'' example_level)"
  let ?data = "TAG_Compound (fmupd ''Level'' ?level fmempty)"
  have 1: "getitem ?data ''Level'' = Inr ?level" by simp
  have 2: "''Status'' \<in> set aux_field_names" by (simp add: aux_field_names_def)
  have 3: "getitem ?level ''Status'' = Inl (KeyError ''Status'')" by simp
  have 4: "decode example_externals ?data = Inl (KeyError ''Status'')"
    by (simp add: decode_def example_level_def decode_blocks_example_volume example_section_items)
  from decode_missing_aux_field [where ext = example_externals, OF 1] 2 3
  have "\<exists>e. decode example_externals ?data = Inl e" by blast
  with 1 2 3 4 show ?thesis by simp
qed

text \<open>
  C10 as stated (the failure is a lookup error) fails: with TileTicks absent and an empty
  list of sections the decode fails in \<^verbatim>\<open>_decode_blocks\<close> with NotImplementedError, before
  any auxiliary field is looked up.
\<close>

theorem decode_missing_field_counterexample:
  "getitem (TAG_Compound (fmupd ''Sections'' (TAG_List []) (fmdrop ''TileTicks'' example_level)))
     ''TileTicks'' = Inl (KeyError ''TileTicks'') \<and>
   decode example_externals
     (TAG_Compound (fmupd ''Level''
        (TAG_Compound (fmupd ''Sections'' (TAG_List []) (fmdrop ''TileTicks'' example_level)))
        fmempty))
     = Inl NotImplementedError \<and>
   \<not> is_KeyError NotImplementedError"
  by (simp add: decode_def example_level_def decode_blocks_def)

subsection \<open>Slabs of air\<close>

text \<open>
  C7. A slab every voxel of which resolves to the air descriptor is omitted: the turn of
  the loop of \<^verbatim>\<open>_encode_blocks\<close> for it ends in \<^verbatim>\<open>continue\<close>, and no section record that
  \<^verbatim>\<open>_encode_blocks\<close> returns carries its index. The palette is one of the data model, which
  holds no descriptor twice, and the slab has voxels (as every slab of a volume of shape
  (16, 256, 16) has).
\<close>

theorem all_air_slab_omitted:
  assumes "distinct pal" and "slab_indices bs y \<noteq> []"
    and "\<forall>i \<in> set (slab_indices bs y). i < length pal \<and> pal ! i = air"
  shows "encode_section ext bs pal y = Inr None \<and>
         (\<forall>secs. encode_blocks ext bs pal = Inr secs \<longrightarrow>
            (\<forall>sec \<in> set secs. getitem sec ''Y'' \<noteq> Inr (TAG_Byte (int y))))"
proof -
  have n: "encode_section ext bs pal y = Inr None"
    using assms by (rule encode_section_air)
  have "getitem sec ''Y'' \<noteq> Inr (TAG_Byte (int y))"
    if "encode_blocks ext bs pal = Inr secs" "sec \<in> set secs" for secs sec
  proof -
    from encode_blocks_sections [OF that] obtain y' where
      y': "encode_section ext bs pal y' = Inr (Some sec)" by blast
    then have "y' \<noteq> y" using n by auto
    then show ?thesis using encode_section_Some(1) [OF y'] by simp
  qed
  with n show ?thesis by blast
qed

theorem all_air_slab_omitted_witness:
  "distinct [air, stone] \<and>
   slab_indices (stone_at 1 0 0) 1 = replicate 4096 0 \<and>
   replicate 4096 (0::nat) \<noteq> [] \<and>
   0 < length [air, stone] \<and> [air, stone] ! 0 = air \<and>
   encode_section example_externals (stone_at 1 0 0) [air, stone] 1 = Inr None \<and>
   encode_blocks example_externals (stone_at 1 0 0) [air, stone] =
     Inr [stored_section (one_at 256)] \<and>
   getitem (stored_section (one_at 256)) ''Y'' = Inr (TAG_Byte 0) \<and>
   getitem (stored_section (one_at 256)) ''Y'' \<noteq> Inr (TAG_Byte (int 1))"
proof -
  have d: "distinct [air, stone]" by (simp add: air_def stone_def)
  have s: "slab_indices (stone_at 1 0 0) 1 = replicate 4096 0"
    by (rule slab_stone_at_Suc) simp_all
  have e: "encode_blocks example_externals (stone_at 1 0 0) [air, stone] =
     Inr [stored_section (one_at 256)]"
    using encode_blocks_stone_at [of 1 0 0] by simp
  have a: "\<forall>i \<in> set (slab_indices (stone_at 1 0 0) 1). i < length [air, stone] \<and> [air, stone] ! i = air"
    unfolding s by simp
  have n: "slab_indices (stone_at 1 0 0) 1 \<noteq> []" unfolding s by simp
  from all_air_slab_omitted [OF d n a, of example_externals] e
  have "encode_section example_externals (stone_at 1 0 0) [air, stone] 1 = Inr None"
    and "getitem (stored_section (one_at 256)) ''Y'' \<noteq> Inr (TAG_Byte (int 1))"
    by auto
  with d s e show ?thesis by (simp add: stored_section_def)
qed

subsection \<open>The local palette of an emitted section\<close>

text \<open>
  C4, as amended. Every section record that \<^verbatim>\<open>_encode_blocks\<close> returns belongs to a slab
  \<open>y\<close> below 16, and its palette lists the descriptors of exactly the palette indices used
  in that slab, each index once, in ascending order of the index into the chunk's palette
  (the order of \<^verbatim>\<open>numpy.unique\<close>); every index used in the slab is a valid index into the
  chunk's palette.
\<close>

theorem local_palette_ascending_index:
  assumes "encode_blocks ext bs pal = Inr secs" and "sec \<in> set secs"
  shows "\<exists>y < 16. getitem sec ''Y'' = Inr (TAG_Byte (int y)) \<and>
           getitem sec ''Palette'' =
             Inr (TAG_List (encode_palette
               (map (\<lambda>i. pal ! i) (sorted_list_of_set (set (slab_indices bs y)))))) \<and>
           (\<forall>i \<in> set (slab_indices bs y). i < length pal)"
proof -
  from encode_blocks_sections [OF assms] obtain y where
    y: "y < 16" "encode_section ext bs pal y = Inr (Some sec)" by blast
  from y(1) encode_section_Some(1-3) [OF y(2)] show ?thesis by blast
qed

theorem local_palette_ascending_index_witness:
  "encode_blocks example_externals (stone_at 1 0 0) [air, stone] =
     Inr [stored_section (one_at 256)] \<and>
   stored_section (one_at 256) \<in> set [stored_section (one_at 256)] \<and>
   getitem (stored_section (one_at 256)) ''Y'' = Inr (TAG_Byte (int 0)) \<and>
   sorted_list_of_set (set (slab_indices (stone_at 1 0 0) 0)) = [0, 1] \<and>
   getitem (stored_section (one_at 256)) ''Palette'' =
     Inr (TAG_List (encode_palette (map (\<lambda>i. [air, stone] ! i)
       (sorted_list_of_set (set (slab_indices (stone_at 1 0 0) 0)))))) \<and>
   list_all (\<lambda>i. i < length [air, stone]) (slab_indices (stone_at 1 0 0) 0)"
proof -
  have e: "encode_blocks example_externals (stone_at 1 0 0) [air, stone] =
     Inr [stored_section (one_at 256)]"
    using encode_blocks_stone_at [of 1 0 0] by simp
  have m: "stored_section (one_at 256) \<in> set [stored_section (one_at 256)]" by simp
  from local_palette_ascending_index [OF e m] obtain y where
    y: "getitem (stored_section (one_at 256)) ''Y'' = Inr (TAG_Byte (int y))"
       "getitem (stored_section (one_at 256)) ''Palette'' =
          Inr (TAG_List (encode_palette (map (\<lambda>i. [air, stone] ! i)
            (sorted_list_of_set (set (slab_indices (stone_at 1 0 0) y))))))"
       "\<forall>i \<in> set (slab_indices (stone_at 1 0 0) y). i < length [air, stone]"
    by blast
  from y(1) have y0: "y = 0" by (simp add: stored_section_def)
  have "slab_indices (stone_at 1 0 0) 0 = map (\<lambda>n. if n = 256 then 1 else 0) [0..<4096]"
    using slab_stone_at_0 [of 0 0 1] by simp
  then have "set (slab_indices (stone_at 1 0 0) 0) = {0, 1}"
    using set_one_hot [of 256] by simp
  then have s: "sorted_list_of_set (set (slab_indices (stone_at 1 0 0) 0)) = [0, 1]" by simp
  from e m y s show ?thesis unfolding y0 by (simp add: list_all_iff)
qed

text \<open>
  C4 as stated (the descriptors are listed in their order of first appearance in the slab)
  fails: in the volume whose first voxel is stone and whose other voxels are air, the
  order of first appearance is (stone, air), and the emitted palette is (air, stone).
\<close>

theorem first_appearance_order_counterexample:
  "encode_blocks example_externals (stone_at 0 0 0) [air, stone] =
     Inr [stored_section (one_at 0)] \<and>
   getitem (stored_section (one_at 0)) ''Palette'' = Inr (TAG_List (encode_palette [air, stone])) \<and>
   map (\<lambda>i. [air, stone] ! i) (first_appearance (slab_indices (stone_at 0 0 0) 0)) = [stone, air] \<and>
   encode_palette [air, stone] \<noteq> encode_palette [stone, air]"
proof -
  have "encode_blocks example_externals (stone_at 0 0 0) [air, stone] =
     Inr [stored_section (one_at 0)]"
    using encode_blocks_stone_at [of 0 0 0] by simp
  moreover have "getitem (stored_section (one_at 0)) ''Palette'' =
      Inr (TAG_List (encode_palette [air, stone]))"
    by (simp add: stored_section_def)
  moreover have "map (\<lambda>i. [air, stone] ! i) (first_appearance (slab_indices (stone_at 0 0 0) 0)) =
      [stone, air]"
    by (simp add: first_appearance_one_zero)
  ultimately show ?thesis using encode_palette_order by blast
qed

subsection \<open>Height maps\<close>

text \<open>
  C6, as amended. Whenever \<^verbatim>\<open>encode\<close> returns, each of the six named height maps
  (MOTION_BLOCKING, MOTION_BLOCKING_NO_LEAVES, OCEAN_FLOOR, OCEAN_FLOOR_WG, WORLD_SURFACE,
  WORLD_SURFACE_WG) of the record is the entry of that name of the compound stored under
  \<^verbatim>\<open>HeightmapsC\<close> when there is one, and an all-zero array of 36 longs otherwise.
\<close>

theorem heightmaps_passed_or_zero:
  assumes "encode ext chunk pal version = Inr data" and "name \<in> set heightmap_names"
  shows "getpath data [''Level'', ''Heightmaps'', name] =
         Inr (case fmlookup (misc chunk) ''HeightmapsC'' of
                Some (MiscTag (TAG_Compound h)) \<Rightarrow>
                  (case fmlookup h name of
                     Some t \<Rightarrow> t
                   | None \<Rightarrow> TAG_Long_Array (replicate 36 0))
              | _ \<Rightarrow> TAG_Long_Array (replicate 36 0))"
proof -
  from assms(1) obtain hm where
    h: "encode_heightmaps (misc chunk) = Inr hm" and
    g: "getpath data [''Level'', ''Heightmaps''] = Inr hm"
    unfolding encode_def Let_def by (auto split: sum.splits)
  from g have "getpath data [''Level'', ''Heightmaps'', name] = getitem hm name"
    by (auto split: sum.splits)
  with encode_heightmaps_entry [OF h assms(2)] show ?thesis by simp
qed

theorem heightmaps_passed_or_zero_witness:
  "''OCEAN_FLOOR'' \<in> set heightmap_names \<and> ''MOTION_BLOCKING'' \<in> set heightmap_names \<and>
   fmlookup (misc example_chunk) ''HeightmapsC'' =
     Some (MiscTag (TAG_Compound
       (fmupd ''MOTION_BLOCKING'' (TAG_Long_Array (replicate 36 5)) fmempty))) \<and>
   encoded_path example_externals example_chunk [air, stone] (''anvil'', 1631)
     [''Level'', ''Heightmaps'', ''MOTION_BLOCKING''] = Inr (TAG_Long_Array (replicate 36 5)) \<and>
   encoded_path example_externals example_chunk [air, stone] (''anvil'', 1631)
     [''Level'', ''Heightmaps'', ''OCEAN_FLOOR''] = Inr (TAG_Long_Array (replicate 36 0))"
proof -
  from encode_example_sections obtain data where
    e: "encode example_externals example_chunk [air, stone] (''anvil'', 1631) = Inr data"
    by blast
  have n: "''OCEAN_FLOOR'' \<in> set heightmap_names" "''MOTION_BLOCKING'' \<in> set heightmap_names"
    by (simp_all add: heightmap_names_def)
  have m: "fmlookup (misc example_chunk) ''HeightmapsC'' =
     Some (MiscTag (TAG_Compound
       (fmupd ''MOTION_BLOCKING'' (TAG_Long_Array (replicate 36 5)) fmempty)))"
    by (simp add: example_chunk_def)
  have "getpath data [''Level'', ''Heightmaps'', ''OCEAN_FLOOR''] =
          Inr (TAG_Long_Array (replicate 36 0))"
    using heightmaps_passed_or_zero [OF e n(1)] by (simp add: m)
  moreover have "getpath data [''Level'', ''Heightmaps'', ''MOTION_BLOCKING''] =
          Inr (TAG_Long_Array (replicate 36 5))"
    using heightmaps_passed_or_zero [OF e n(2)] by (simp add: m)
  ultimately show ?thesis using e n m by (simp add: encoded_path_def)
qed

text \<open>
  C6 as stated (an absent entry is emitted as an all-zero array of length 37) fails: the
  example chunk stores MOTION_BLOCKING alone, and its OCEAN_FLOOR is emitted as 36 zeros.
\<close>

theorem heightmap_length_37_counterexample:
  "fmlookup (misc example_chunk) ''HeightmapsC'' =
     Some (MiscTag (TAG_Compound
       (fmupd ''MOTION_BLOCKING'' (TAG_Long_Array (replicate 36 5)) fmempty))) \<and>
   fmlookup (fmupd ''MOTION_BLOCKING'' (TAG_Long_Array (replicate 36 5)) fmempty)
     ''OCEAN_FLOOR'' = None \<and>
   encoded_path example_externals example_chunk [air, stone] (''anvil'', 1631)
     [''Level'', ''Heightmaps'', ''OCEAN_FLOOR''] = Inr (TAG_Long_Array (replicate 36 0)) \<and>
   length (replicate 36 (0::int)) \<noteq> 37"
  by (simp add: encoded_path_example) (simp add: example_chunk_def)

subsection \<open>Light arrays\<close>

text \<open>
  C1. The claim that the light arrays a decode stored are attached again on encode fails
  on the code: \<^verbatim>\<open>decode\<close> stores them under the keys \<^verbatim>\<open>BlockLight2048BA\<close> and
  \<^verbatim>\<open>SkyLight2048BA\<close>, and \<^verbatim>\<open>encode\<close> looks for \<^verbatim>\<open>BlockLight2048\<close> and
  \<^verbatim>\<open>SkyLight2048\<close>. The example record has the block light 7 and the sky light 15 in
  slab 0; decoding it stores both arrays, and encoding the decoded chunk emits slab 0 with
  both arrays all zero.
\<close>

theorem stored_light_not_reattached:
  "decode example_externals example_data = Inr (example_chunk, [air, stone]) \<and>
   getpath example_data [''Level'', ''Sections''] =
     Inr (TAG_List [example_section example_longs]) \<and>
   getitem (example_section example_longs) ''Y'' = Inr (TAG_Byte 0) \<and>
   getitem (example_section example_longs) ''BlockLight'' =
     Inr (TAG_Byte_Array (replicate 2048 7)) \<and>
   getitem (example_section example_longs) ''SkyLight'' =
     Inr (TAG_Byte_Array (replicate 2048 15)) \<and>
   fmlookup (misc example_chunk) ''BlockLight2048BA'' =
     Some (MiscDict (fmupd 0 (TAG_Byte_Array (replicate 2048 7)) fmempty)) \<and>
   fmlookup (misc example_chunk) ''SkyLight2048BA'' =
     Some (MiscDict (fmupd 0 (TAG_Byte_Array (replicate 2048 15)) fmempty)) \<and>
   encoded_path example_externals example_chunk [air, stone] (''anvil'', 1631)
     [''Level'', ''Sections''] = Inr (TAG_List [example_encoded_section]) \<and>
   getitem example_encoded_section ''Y'' = Inr (TAG_Byte 0) \<and>
   getitem example_encoded_section ''BlockLight'' = Inr (TAG_Byte_Array (replicate 2048 0)) \<and>
   getitem example_encoded_section ''SkyLight'' = Inr (TAG_Byte_Array (replicate 2048 0))"
proof -
  have "getpath example_data [''Level'', ''Sections''] =
     Inr (TAG_List [example_section example_longs])"
    by (simp add: example_data_def example_level_def)
  moreover have "fmlookup (misc example_chunk) ''BlockLight2048BA'' =
     Some (MiscDict (fmupd 0 (TAG_Byte_Array (replicate 2048 7)) fmempty))"
    "fmlookup (misc example_chunk) ''SkyLight2048BA'' =
     Some (MiscDict (fmupd 0 (TAG_Byte_Array (replicate 2048 15)) fmempty))"
    by (simp_all add: example_chunk_def)
  moreover have "getitem example_encoded_section ''Y'' = Inr (TAG_Byte 0)"
    "getitem example_encoded_section ''BlockLight'' = Inr (TAG_Byte_Array (replicate 2048 0))"
    "getitem example_encoded_section ''SkyLight'' = Inr (TAG_Byte_Array (replicate 2048 0))"
    by (simp_all add: example_encoded_section_def zero_light_def)
  ultimately show ?thesis
    by (simp add: decode_example_data example_section_items encoded_path_example)
qed

subsection \<open>The round trip\<close>

text \<open>
  C3, as amended. Let the volume \<open>V\<close> and the palette \<open>P\<close> be produced by a decode, and let
  the string of a string tag be its text. Whenever \<^verbatim>\<open>_encode_blocks\<close> returns for them and
  \<^verbatim>\<open>_decode_blocks\<close> returns \<open>(V', P')\<close> for the sections it emitted, the descriptors of
  \<open>P'\<close> are air and the descriptors of \<open>P\<close> that the voxels of the emitted slabs use; so
  every descriptor of \<open>P'\<close> is one of \<open>P\<close>, and a descriptor of \<open>P\<close> that no voxel of an
  emitted slab uses is not in \<open>P'\<close> unless it is air.
\<close>

theorem roundtrip_palette:
  assumes "decode_blocks ext secs0 = Inr (V, P)"
    and "encode_blocks ext V P = Inr secs"
    and "decode_blocks ext secs = Inr (V', P')"
    and "\<forall>s. str_value ext (TAG_String s) = s"
  shows "set P' =
           insert air {P ! i | i y. y < 16 \<and> (\<exists>sec. encode_section ext V P y = Inr (Some sec)) \<and>
                                    i \<in> set (slab_indices V y)} \<and>
         set P' \<subseteq> set P"
proof -
  have c: "\<forall>b \<in> set P. CHR '':'' \<notin> set (namespace b)"
    using decode_blocks_namespace [OF assms(1)] by blast
  have a: "air \<in> set P" using decode_blocks_palette [OF assms(1)] by simp
  have "(\<Union>sec \<in> set secs. palette_blocks ext sec) =
        {P ! i | i y. y < 16 \<and> (\<exists>sec. encode_section ext V P y = Inr (Some sec)) \<and>
                     i \<in> set (slab_indices V y)}" (is "?L = ?R")
  proof (rule set_eqI)
    fix b
    show "b \<in> ?L \<longleftrightarrow> b \<in> ?R"
    proof
      assume "b \<in> ?L"
      then obtain sec where sec: "sec \<in> set secs" "b \<in> palette_blocks ext sec" by blast
      from sec(1) obtain y where y: "y < 16" "encode_section ext V P y = Inr (Some sec)"
        using encode_blocks_sections_iff [OF assms(2)] by blast
      from sec(2) palette_blocks_encoded [OF y(2) c assms(4)] y show "b \<in> ?R" by auto
    next
      assume "b \<in> ?R"
      then obtain i y sec where
        y: "y < 16" "encode_section ext V P y = Inr (Some sec)" "i \<in> set (slab_indices V y)"
           "b = P ! i"
        by blast
      from y(1,2) have "sec \<in> set secs" using encode_blocks_sections_iff [OF assms(2)] by blast
      moreover from y(3,4) palette_blocks_encoded [OF y(2) c assms(4)]
      have "b \<in> palette_blocks ext sec" by auto
      ultimately show "b \<in> ?L" by blast
    qed
  qed
  with decode_blocks_palette [OF assms(3)] have e: "set P' = insert air ?R" by simp
  have "?R \<subseteq> set P"
  proof
    fix b assume "b \<in> ?R"
    then obtain i y sec where
      y: "encode_section ext V P y = Inr (Some sec)" "i \<in> set (slab_indices V y)" "b = P ! i"
      by blast
    from encode_section_Some(3) [OF y(1)] y(2,3) show "b \<in> set P" by simp
  qed
  with e a show ?thesis by auto
qed

theorem roundtrip_palette_witness:
  "decode_blocks example_externals [example_section example_longs] =
     Inr (example_volume, [air, stone]) \<and>
   encode_blocks example_externals example_volume [air, stone] =
     Inr [stored_section (one_at 256)] \<and>
   decode_blocks example_externals [stored_section (one_at 256)] =
     Inr (stone_at 0 1 0, [air, stone]) \<and>
   (\<forall>s. str_value example_externals (TAG_String s) = s) \<and>
   set [air, stone] \<subseteq> set [air, stone]"
proof -
  have s: "\<forall>s. str_value example_externals (TAG_String s) = s"
    by (simp add: example_externals_def)
  from roundtrip_palette [OF decode_blocks_example_volume encode_blocks_example_volume
      decode_blocks_stored_256 s]
  have "set [air, stone] \<subseteq> set [air, stone]" by blast
  with s decode_blocks_example_volume encode_blocks_example_volume decode_blocks_stored_256
  show ?thesis by blast
qed

text \<open>
  C3 as stated fails: the chunk whose one section has the palette (air, stone) and packed
  indices that are all 0 decodes to a volume of air with the palette (air, stone); every
  slab of it is omitted on encode, and the decode of no sections raises
  NotImplementedError, so there is no \<open>(V', P')\<close>.
\<close>

theorem all_air_chunk_roundtrip_counterexample:
  "decode_blocks example_externals [example_section (replicate 4096 0)] =
     Inr (zeros3 16 256 16, [air, stone]) \<and>
   encode_blocks example_externals (zeros3 16 256 16) [air, stone] = Inr [] \<and>
   decode_blocks example_externals [] = Inl NotImplementedError"
  by (simp add: decode_blocks_all_air encode_blocks_all_air) (simp add: decode_blocks_def)

text \<open>
  Where the round trip does return, the voxels do not come back where they were:
  \<^verbatim>\<open>_encode_blocks\<close> flattens a slab in the order x, y, z and does not swap the axes
  back to the storage order that \<^verbatim>\<open>_decode_blocks\<close> reads, so the stone at (1, 0, 0) of the
  example volume comes back at (0, 1, 0).
\<close>

theorem roundtrip_moves_stone:
  "decode_blocks example_externals [example_section example_longs] =
     Inr (stone_at 1 0 0, [air, stone]) \<and>
   encode_blocks example_externals (stone_at 1 0 0) [air, stone] =
     Inr [stored_section (one_at 256)] \<and>
   decode_blocks example_externals [stored_section (one_at 256)] =
     Inr (stone_at 0 1 0, [air, stone]) \<and>
   [air, stone] ! (stone_at 1 0 0 ! 1 ! 0 ! 0) = stone \<and>
   [air, stone] ! (stone_at 0 1 0 ! 1 ! 0 ! 0) = air \<and>
   [air, stone] ! (stone_at 0 1 0 ! 0 ! 1 ! 0) = stone"
proof -
  have "stone_at 1 0 0 ! 1 ! 0 ! 0 = 1" "stone_at 0 1 0 ! 1 ! 0 ! 0 = 0"
    "stone_at 0 1 0 ! 0 ! 1 ! 0 = 1"
    by (simp_all add: stone_at_def table3_nth)
  then show ?thesis
    using decode_blocks_example_volume encode_blocks_example_volume decode_blocks_stored_256
    by (simp add: example_volume_stone_at)
qed

subsection \<open>The applicability check\<close>

text \<open>
  C8. The applicability check accepts a (format identifier, version) key exactly when the
  identifier is \<open>anvil\<close> and the version is at least 1444; every other key yields False,
  which is a result and not an error.
\<close>

theorem is_valid_iff:
  "is_valid (fmt, version) = (fmt = ''anvil'' \<and> 1444 \<le> version)"
  by (auto simp: is_valid_def)

end
